theory Spec2Isabelle
  imports Complex_Main "HOL-Library.Word"
begin

section \<open>Shared types\<close>

text \<open>
  Go's \<open>time.Time\<close> and \<open>time.Duration\<close> count nanoseconds; both are integers here.
  A byte is an 8-bit word. A Go \<open>error\<close> that may be \<open>nil\<close> is an \<open>option\<close>.
\<close>

type_synonym time = int
type_synonym Duration = int
type_synonym byte = "8 word"

definition Second :: Duration where
  "Second = 1000000000"

definition Minute :: Duration where
  "Minute = 60 * Second"

text \<open>
  What the database driver can answer instead of a result: \<open>sql.ErrNoRows\<close> when a
  \<open>QueryRow(...).Scan\<close> finds no row, the store's own rejections of a statement, and a
  failure of the connection (or of the three-second deadline of the context).
\<close>

datatype db_error =
    ErrNoRows
  | SyntaxError string
  | UndefinedTable string
  | MissingFromClause string
  | IntegerOutOfRange
  | UniqueViolation string
  | StoreUnavailable

text \<open>The text of \<open>err.Error()\<close> for each of them, as the pq driver prints it.\<close>

fun Error_text :: "db_error \<Rightarrow> string" where
  "Error_text ErrNoRows = ''sql: no rows in result set''"
| "Error_text (SyntaxError w) = ''pq: syntax error at or near '' @ [CHR 0x22] @ w @ [CHR 0x22]"
| "Error_text (UndefinedTable t) = ''pq: relation '' @ [CHR 0x22] @ t @ [CHR 0x22] @ '' does not exist''"
| "Error_text (MissingFromClause t) =
     ''pq: missing FROM-clause entry for table '' @ [CHR 0x22] @ t @ [CHR 0x22]"
| "Error_text IntegerOutOfRange = ''pq: integer out of range''"
| "Error_text (UniqueViolation c) =
     ''pq: duplicate key value violates unique constraint '' @ [CHR 0x22] @ c @ [CHR 0x22]"
| "Error_text StoreUnavailable = ''context deadline exceeded''"

text \<open>
  The errors of package \<open>data\<close>: its own sentinels, a driver error passed on unchanged, and
  the failure of the operating system's random source; and an error of package \<open>net\<close>.
\<close>

datatype error =
    ErrRecordNotFound
  | ErrEditConflict
  | ErrDuplicateEmail
  | DBError db_error
  | EntropyFailure
  | NetError string

section \<open>The validator\<close>

text \<open>
  Modelled from the spec: package \<open>validator\<close> (\<open>New\<close>, \<open>Check\<close>, \<open>AddError\<close>,
  \<open>Valid\<close>) is not among the sources, and the spec gives it no words of its own; the model
  follows what the callers' comments say of it: \<open>Check\<close> adds the key and the message to
  the errors map if the check does not evaluate to true, and the input is valid when the
  map is empty. The map is an association list, the first message of a key kept.
\<close>

type_synonym Validator = "(string \<times> string) list"

definition New :: Validator where
  "New = []"

definition AddError :: "Validator \<Rightarrow> string \<Rightarrow> string \<Rightarrow> Validator" where
  "AddError v key message = (if map_of v key = None then v @ [(key, message)] else v)"

definition Check :: "Validator \<Rightarrow> bool \<Rightarrow> string \<Rightarrow> string \<Rightarrow> Validator" where
  "Check v ok key message = (if \<not> ok then AddError v key message else v)"

definition Valid :: "Validator \<Rightarrow> bool" where
  "Valid v = (length v = 0)"

section \<open>Movies and users\<close>

record Movie =
  ID :: int
  CreatedAt :: time
  Title :: string
  Year :: int
  Runtime :: int
  Genres :: "string list"
  Version :: int

text \<open>
  The password of a user: the plaintext is a pointer to a string and the hash a byte slice,
  and either may be \<open>nil\<close>.
\<close>

record password =
  plaintext :: "string option"
  hash :: "byte list option"

record User =
  ID :: int
  CreatedAt :: time
  Name :: string
  Email :: string
  Password :: password
  Activated :: bool
  Version :: int

subsection \<open>Validation of a user\<close>

text \<open>
  \<open>validator.Matches(email, validator.EmailRX)\<close>: the regular expression is not among the
  sources, so the match is a parameter \<open>EmailRX\<close> of the validation.
\<close>

definition ValidateEmail :: "(string \<Rightarrow> bool) \<Rightarrow> Validator \<Rightarrow> string \<Rightarrow> Validator" where
  "ValidateEmail EmailRX v email =
     (let v = Check v (email \<noteq> []) ''email'' ''must be provided'';
          v = Check v (EmailRX email) ''email'' ''must be a valid email address''
      in v)"

definition ValidatePasswordPlainText :: "Validator \<Rightarrow> string \<Rightarrow> Validator" where
  "ValidatePasswordPlainText v pw =
     (let v = Check v (pw \<noteq> []) ''passwrod'' ''must be provided'';
          v = Check v (length pw \<ge> 8) ''password'' ''must be atleast 8 bytes long'';
          v = Check v (length pw \<le> 72) ''password'' ''must not be more than 72 bytes long''
      in v)"

text \<open>A panic is the left summand, carrying the panic's value.\<close>

definition ValidateUser :: "(string \<Rightarrow> bool) \<Rightarrow> Validator \<Rightarrow> User \<Rightarrow> string + Validator" where
  "ValidateUser EmailRX v user =
     (let v = Check v (Name user \<noteq> []) ''name'' ''mst be provided'';
          v = Check v (length (Name user) \<le> 500) ''name'' ''must not be more than 500 bytes long'';
          v = ValidateEmail EmailRX v (Email user);
          v = (case plaintext (Password user) of
                 Some p \<Rightarrow> ValidatePasswordPlainText v p
               | None \<Rightarrow> v)
      in if hash (Password user) = None
         then Inl ''missing password hash for user''
         else Inr v)"

section \<open>Permissions\<close>

type_synonym Permissions = "string list"

text \<open>The loop of \<open>Include\<close> over the slice: true at the first element equal to the code.\<close>

primrec Include :: "Permissions \<Rightarrow> string \<Rightarrow> bool" where
  "Include [] code = False"
| "Include (p # ps) code = (if code = p then True else Include ps code)"

section \<open>Requests, responses and handlers\<close>

text \<open>
  Modelled from the spec: \<open>data.AnonymousUser\<close>, \<open>IsAnonymous\<close>, \<open>contextSetUser\<close> and
  \<open>contextGetUser\<close> are not among the sources. The spec's Identity is either a concrete
  user or the well-known Anonymous sentinel, which carries no permissions and is not
  activated; a handler reads the identity that \<open>authenticate\<close> put into the request
  context. Reading a context that holds no identity aborts the request with a panic.
\<close>

datatype user_ref = AnonymousUser | UserPtr User

definition IsAnonymous :: "user_ref \<Rightarrow> bool" where
  "IsAnonymous u = (u = AnonymousUser)"

text \<open>The user a reference points to; the sentinel points to the zero value of the struct.\<close>

definition zero_User :: User where
  "zero_User = \<lparr>User.ID = 0, CreatedAt = 0, Name = [], Email = [],
     Password = \<lparr>plaintext = None, hash = None\<rparr>, Activated = False, Version = 0\<rparr>"

fun deref :: "user_ref \<Rightarrow> User" where
  "deref AnonymousUser = zero_User"
| "deref (UserPtr u) = u"

record request =
  Header :: "string \<rightharpoonup> string list"
  RemoteAddr :: string
  ctx_user :: "user_ref option"

definition contextSetUser :: "request \<Rightarrow> user_ref \<Rightarrow> request" where
  "contextSetUser r user = r\<lparr>ctx_user := Some user\<rparr>"

definition contextGetUser :: "request \<Rightarrow> string + user_ref" where
  "contextGetUser r =
     (case ctx_user r of
        None \<Rightarrow> Inl ''missing user value in request context''
      | Some user \<Rightarrow> Inr user)"

text \<open>\<open>Header.Get\<close>: the first value of the key, the empty string when there is none.\<close>

definition Header_Get :: "(string \<rightharpoonup> string list) \<Rightarrow> string \<Rightarrow> string" where
  "Header_Get h key = (case h key of None \<Rightarrow> [] | Some [] \<Rightarrow> [] | Some (v # _) \<Rightarrow> v)"

text \<open>
  The response helpers of the application (\<open>serverErrorResponse\<close> logs the error it is
  given); a response is named by the helper that wrote it.
\<close>

datatype response =
    serverErrorResponse error
  | rateLimitExceededResponse
  | invalidAuthenticationTokenResponse
  | authenticationRequiredResponse
  | inactiveAccountResponse
  | notPermittedResponse

text \<open>
  A \<open>ResponseWriter\<close> is the list of response headers set so far. A handler either writes
  a response, or is the business handler at the end of the chain, which serves the request
  (\<open>Served\<close>, with the headers and the request it was given), or panics.
\<close>

type_synonym ResponseWriter = "(string \<times> string) list"

datatype outcome =
    Respond ResponseWriter response
  | Served ResponseWriter request
  | Panicked string

type_synonym Handler = "ResponseWriter \<Rightarrow> request \<Rightarrow> outcome"

subsection \<open>The permission gates\<close>

definition requireAuthenticatedUser :: "Handler \<Rightarrow> Handler" where
  "requireAuthenticatedUser next w r =
     (case contextGetUser r of
        Inl p \<Rightarrow> Panicked p
      | Inr user \<Rightarrow>
          if IsAnonymous user then Respond w authenticationRequiredResponse
          else next w r)"

definition requireActivatedUser :: "Handler \<Rightarrow> Handler" where
  "requireActivatedUser next =
     (let fn = (\<lambda>w r.
            case contextGetUser r of
              Inl p \<Rightarrow> Panicked p
            | Inr user \<Rightarrow>
                if \<not> Activated (deref user) then Respond w inactiveAccountResponse
                else next w r)
      in requireAuthenticatedUser fn)"

subsection \<open>Authentication\<close>

text \<open>\<open>strings.Split\<close> at a one-byte separator: every occurrence ends a part.\<close>

fun Split :: "string \<Rightarrow> char \<Rightarrow> string list" where
  "Split [] sep = [[]]"
| "Split (c # cs) sep =
     (if c = sep then [] # Split cs sep
      else (case Split cs sep of
              [] \<Rightarrow> [[c]]
            | part # parts \<Rightarrow> (c # part) # parts))"

definition ValidateTokenPlainText :: "Validator \<Rightarrow> string \<Rightarrow> Validator" where
  "ValidateTokenPlainText v tokenPlainText =
     (let v = Check v (tokenPlainText \<noteq> []) ''token'' ''must be provided'';
          v = Check v (length tokenPlainText = 26) ''token'' ''must be 26 bytes long''
      in v)"


text \<open>
  Modelled from the spec: the constant \<open>data.ScopeAuthentication\<close> is not among the
  sources; the spec names the scope tags "activation" and "authentication".
\<close>

definition ScopeAuthentication :: string where
  "ScopeAuthentication = ''authentication''"

text \<open>
  \<open>app.models.Users.GetForToken\<close> asks the store; its answer for a scope and a token (an
  error or the user) is the parameter \<open>GetForToken\<close>.
\<close>

definition authenticate :: "(string \<Rightarrow> string \<Rightarrow> error + User) \<Rightarrow> Handler \<Rightarrow> Handler" where
  "authenticate GetForToken next w r =
     (let w = w @ [(''Vary'', ''Authorization'')];
          authorizationHeader = Header_Get (Header r) ''Authorization''
      in if authorizationHeader = [] then next w (contextSetUser r AnonymousUser)
         else
           let headerParts = Split authorizationHeader CHR '' ''
           in if length headerParts \<noteq> 2 \<or> headerParts ! 0 \<noteq> ''Bearer''
              then Respond w invalidAuthenticationTokenResponse
              else
                let token = headerParts ! 1;
                    v = ValidateTokenPlainText New token
                in if \<not> Valid v then Respond w invalidAuthenticationTokenResponse
                   else
                     (case GetForToken ScopeAuthentication token of
                        Inl err \<Rightarrow>
                          if err = ErrRecordNotFound
                          then Respond w invalidAuthenticationTokenResponse
                          else Respond w (serverErrorResponse err)
                      | Inr user \<Rightarrow> next w (contextSetUser r (UserPtr user))))"

section \<open>The store\<close>

text \<open>
  The persistent store (PostgreSQL behind \<open>database/sql\<close>) is an external collaborator:
  the sources hold only the statements sent to it. A table with a primary key \<open>id\<close> is a
  map from the id to the row; the tokens table, which has none, is the list of its rows.
  A statement reaches the store as text.
  The store rejects a text that does not begin with a command it knows with a syntax error
  at the first word, a statement on a relation that is not in the schema with
  an undefined-table error, and a query in which a column is qualified by a name that its
  \<open>FROM\<close> and \<open>JOIN\<close> clauses do not bring in with a missing-FROM-clause error; a
  statement it accepts has the effect its text describes, which each model function below
  writes out. The schema holds the relations that the statements
  and the comments of the sources name. A call can also fail before the statement is
  looked at (the connection, or the deadline of the context): the parameter \<open>fault\<close>.
\<close>

definition sql_words :: "string \<Rightarrow> string list" where
  "sql_words query = filter (\<lambda>w. w \<noteq> []) (Split query CHR '' '')"

definition relations :: "string list" where
  "relations = [''movies'', ''users'', ''tokens'', ''permissions'', ''users_permissions'']"

definition check_relation :: "string \<Rightarrow> db_error option" where
  "check_relation t = (if t \<in> set relations then None else Some (UndefinedTable t))"

text \<open>The relations of a query: the words that follow \<open>FROM\<close> or \<open>JOIN\<close>.\<close>

fun from_relations :: "string list \<Rightarrow> string list" where
  "from_relations (w # t # ws) =
     (if w = ''FROM'' \<or> w = ''JOIN'' then t # from_relations (t # ws)
      else from_relations (t # ws))"
| "from_relations ws = []"

text \<open>The qualifiers of a query: of every word \<open>t.c\<close>, the part before the dot.\<close>

definition qualifiers :: "string list \<Rightarrow> string list" where
  "qualifiers ws =
     map (takeWhile (\<lambda>c. c \<noteq> CHR ''.'')) (filter (\<lambda>w. CHR ''.'' \<in> set w) ws)"

definition check_query :: "string list \<Rightarrow> db_error option" where
  "check_query ws =
     (case filter (\<lambda>t. t \<notin> set relations) (from_relations ws) of
        t # _ \<Rightarrow> Some (UndefinedTable t)
      | [] \<Rightarrow>
          (case filter (\<lambda>q. q \<notin> set (from_relations ws)) (qualifiers ws) of
             q # _ \<Rightarrow> Some (MissingFromClause q)
           | [] \<Rightarrow> None))"

definition Prepare :: "string \<Rightarrow> db_error option" where
  "Prepare query =
     (case sql_words query of
        [] \<Rightarrow> Some (SyntaxError [])
      | w # rest \<Rightarrow>
          if w = ''SELECT'' then check_query rest
          else if w = ''UPDATE'' then
            (case rest of [] \<Rightarrow> Some (SyntaxError []) | t # _ \<Rightarrow> check_relation t)
          else if w = ''INSERT'' then
            (case rest of
               i # t # _ \<Rightarrow> if i = ''INTO'' then check_relation t else Some (SyntaxError i)
             | _ \<Rightarrow> Some (SyntaxError []))
          else if w = ''DELETE'' then
            (case rest of
               f # t # _ \<Rightarrow> if f = ''FROM'' then check_relation t else Some (SyntaxError f)
             | _ \<Rightarrow> Some (SyntaxError []))
          else Some (SyntaxError w))"

definition Exec :: "db_error option \<Rightarrow> string \<Rightarrow> db_error option" where
  "Exec fault query = (case fault of Some e \<Rightarrow> Some e | None \<Rightarrow> Prepare query)"

section \<open>The permissions of a user\<close>

text \<open>
  The tables that the query of \<open>GetAllForUser\<close> reads: permissions (id and code),
  users_permissions (user_id and permission_id) and users.
\<close>

record permission_tables =
  tbl_permissions :: "int \<rightharpoonup> string"
  tbl_users_permissions :: "(int \<times> int) list"
  tbl_users :: "int \<rightharpoonup> User"

text \<open>The statement, its line breaks and indentation written as single spaces.\<close>

definition GetAllForUser_query :: string where
  "GetAllForUser_query =
     ''SELECT permissions.code FROM permissions INNER JOIN users_permissions ON users_permissions.permission_id = permission.id INNER JOIN users ON users_permissions.user_id = users.id WHERE users.id = $1''"

text \<open>
  The rows that the join gives for a user id, where the store accepts the query: the codes
  of the permissions that users_permissions links to that user.
\<close>

definition permission_rows :: "permission_tables \<Rightarrow> int \<Rightarrow> string list" where
  "permission_rows tables userID =
     concat (map (\<lambda>(uid, pid).
                   if uid = userID \<and> tbl_users tables uid \<noteq> None
                   then (case tbl_permissions tables pid of None \<Rightarrow> [] | Some c \<Rightarrow> [c])
                   else [])
               (tbl_users_permissions tables))"

text \<open>
  \<open>GetAllForUser\<close>: an error of the query is returned; otherwise the loop over the rows
  appends every code to the slice.
\<close>

definition GetAllForUser ::
  "db_error option \<Rightarrow> permission_tables \<Rightarrow> int \<Rightarrow> error + Permissions" where
  "GetAllForUser fault tables userID =
     (case Exec fault GetAllForUser_query of
        Some e \<Rightarrow> Inl (DBError e)
      | None \<Rightarrow>
          Inr (foldl (\<lambda>perms permission. perms @ [permission]) []
                 (permission_rows tables userID)))"

text \<open>
  \<open>requiredPermission\<close> reads the permissions of the user from the store anew in every
  request; \<open>fault\<close> and \<open>tables\<close> are the store at the time of the request.
\<close>

definition requiredPermission ::
  "db_error option \<Rightarrow> permission_tables \<Rightarrow> string \<Rightarrow> Handler \<Rightarrow> Handler" where
  "requiredPermission fault tables code next =
     (let fn = (\<lambda>w r.
            case contextGetUser r of
              Inl p \<Rightarrow> Panicked p
            | Inr user \<Rightarrow>
                (case GetAllForUser fault tables (User.ID (deref user)) of
                   Inl err \<Rightarrow> Respond w (serverErrorResponse err)
                 | Inr perms \<Rightarrow>
                     if \<not> Include perms code then Respond w notPermittedResponse
                     else next w r))
      in requireActivatedUser fn)"

section \<open>Tokens\<close>

record Token =
  Plaintext :: string
  Hash :: "byte list"
  UserID :: int
  Expiry :: time
  Scope :: string

text \<open>A row of the tokens table: the columns hash, user_id, expiry and scope.\<close>

record token_row =
  t_hash :: "byte list"
  t_user_id :: int
  t_expiry :: time
  t_scope :: string

subsection \<open>Base-32 without padding\<close>

text \<open>
  \<open>base32.StdEncoding.WithPadding(base32.NoPadding).EncodeToString\<close> of the Go standard
  library, as RFC 4648 defines it: the bits of the bytes, most significant first, are cut
  into groups of five, the last group filled up with zero bits, and every group is written
  as one character of the alphabet.
\<close>

definition encodeStd :: string where
  "encodeStd = ''ABCDEFGHIJKLMNOPQRSTUVWXYZ234567''"

definition byte_bits :: "byte \<Rightarrow> bool list" where
  "byte_bits b = map (bit b) [7, 6, 5, 4, 3, 2, 1, 0]"

definition bits_val :: "bool list \<Rightarrow> nat" where
  "bits_val bs = foldl (\<lambda>n b. 2 * n + (if b then 1 else 0)) 0 bs"

fun groups5 :: "bool list \<Rightarrow> bool list list" where
  "groups5 [] = []"
| "groups5 (b # bs) = take 5 (b # bs @ replicate 4 False) # groups5 (drop 4 bs)"

definition EncodeToString :: "byte list \<Rightarrow> string" where
  "EncodeToString src = map (\<lambda>g. encodeStd ! bits_val g) (groups5 (concat (map byte_bits src)))"

subsection \<open>Issuing a token\<close>

text \<open>
  \<open>rand.Read\<close> fills the slice from the random source of the operating system, or fails;
  the source is \<open>None\<close> when it fails and otherwise gives the byte at every position.
  \<open>sha256.Sum256\<close> is the parameter \<open>Sum256\<close>, and \<open>time.Now()\<close> the parameter \<open>now\<close>.
\<close>

definition rand_Read :: "(nat \<Rightarrow> byte) option \<Rightarrow> nat \<Rightarrow> error + byte list" where
  "rand_Read rnd n =
     (case rnd of None \<Rightarrow> Inl EntropyFailure | Some f \<Rightarrow> Inr (map f [0..<n]))"

definition generatedToken ::
  "(string \<Rightarrow> byte list) \<Rightarrow> (nat \<Rightarrow> byte) option \<Rightarrow> time \<Rightarrow> int \<Rightarrow> Duration \<Rightarrow> string
     \<Rightarrow> error + Token" where
  "generatedToken Sum256 rnd now userID ttl scope =
     (let token = \<lparr>Plaintext = [], Hash = [], UserID = userID, Expiry = now + ttl,
                   Scope = scope\<rparr>
      in case rand_Read rnd 16 of
           Inl err \<Rightarrow> Inl err
         | Inr randomBytes \<Rightarrow>
             let token = token\<lparr>Plaintext := EncodeToString randomBytes\<rparr>;
                 token = token\<lparr>Hash := Sum256 (Plaintext token)\<rparr>
             in Inr token)"

text \<open>The statements, their line breaks and indentation written as single spaces.\<close>

definition Insert_query :: string where
  "Insert_query = ''INSERT INTO tokesn (hash, user_id, expiry, scope) VALUES ($1, $2, $3, $4)''"

definition DeleteAllForUser_query :: string where
  "DeleteAllForUser_query = ''DLETE FROM tokens WHERE scope = $1 AND user_id = $2''"

definition TokenModel_Insert ::
  "db_error option \<Rightarrow> token_row list \<Rightarrow> Token \<Rightarrow> error option \<times> token_row list" where
  "TokenModel_Insert fault tokens token =
     (case Exec fault Insert_query of
        Some e \<Rightarrow> (Some (DBError e), tokens)
      | None \<Rightarrow>
          (None, tokens @ [\<lparr>t_hash = Hash token, t_user_id = UserID token,
                            t_expiry = Expiry token, t_scope = Scope token\<rparr>]))"

text \<open>\<open>New\<close> returns the token together with the error of the insert.\<close>

definition TokenModel_New ::
  "(string \<Rightarrow> byte list) \<Rightarrow> (nat \<Rightarrow> byte) option \<Rightarrow> time \<Rightarrow> db_error option
     \<Rightarrow> token_row list \<Rightarrow> int \<Rightarrow> Duration \<Rightarrow> string
     \<Rightarrow> (Token option \<times> error option) \<times> token_row list" where
  "TokenModel_New Sum256 rnd now fault tokens userID ttl scope =
     (case generatedToken Sum256 rnd now userID ttl scope of
        Inl err \<Rightarrow> ((None, Some err), tokens)
      | Inr token \<Rightarrow>
          (let (err, tokens') = TokenModel_Insert fault tokens token
           in ((Some token, err), tokens')))"

definition TokenModel_DeleteAllForUser ::
  "db_error option \<Rightarrow> token_row list \<Rightarrow> string \<Rightarrow> int \<Rightarrow> error option \<times> token_row list" where
  "TokenModel_DeleteAllForUser fault tokens scope userID =
     (case Exec fault DeleteAllForUser_query of
        Some e \<Rightarrow> (Some (DBError e), tokens)
      | None \<Rightarrow>
          (None, filter (\<lambda>t. \<not> (t_scope t = scope \<and> t_user_id t = userID)) tokens))"

subsection \<open>Looking a token up\<close>

text \<open>
  Modelled from the spec: \<open>UserModel.GetForToken\<close> is not among the sources. The spec:
  Authenticate computes the hash of the presented value and looks up a row matching
  \<open>{hash, scope, expiry > now}\<close>; no match, which includes a row that is found but expired or
  of another scope, is the record-not-found outcome; a match resolves to the user the row
  belongs to. A store that cannot be reached gives its own error.
\<close>

definition matching_tokens ::
  "(string \<Rightarrow> byte list) \<Rightarrow> token_row list \<Rightarrow> time \<Rightarrow> string \<Rightarrow> string \<Rightarrow> token_row list" where
  "matching_tokens Sum256 tokens now tokenScope tokenPlaintext =
     filter (\<lambda>t. t_hash t = Sum256 tokenPlaintext \<and> t_scope t = tokenScope \<and> t_expiry t > now)
       tokens"

definition GetForToken ::
  "(string \<Rightarrow> byte list) \<Rightarrow> token_row list \<Rightarrow> (int \<rightharpoonup> User) \<Rightarrow> time \<Rightarrow> db_error option
     \<Rightarrow> string \<Rightarrow> string \<Rightarrow> error + User" where
  "GetForToken Sum256 tokens users now fault tokenScope tokenPlaintext =
     (case fault of
        Some e \<Rightarrow> Inl (DBError e)
      | None \<Rightarrow>
          (case concat (map (\<lambda>t. case users (t_user_id t) of None \<Rightarrow> [] | Some u \<Rightarrow> [u])
                          (matching_tokens Sum256 tokens now tokenScope tokenPlaintext)) of
             [] \<Rightarrow> Inl ErrRecordNotFound
           | u # _ \<Rightarrow> Inr u))"

section \<open>Optimistic updates\<close>

text \<open>
  The version column is a 32-bit integer of the store (as \<open>Movie.Version\<close> is an \<open>int32\<close>):
  \<open>version + 1\<close> beyond its range is an error of the statement, not a wrap-around.
\<close>

definition max_version :: int where
  "max_version = 2147483647"

definition MovieModel_Update_query :: string where
  "MovieModel_Update_query =
     ''UPDATE movies SET title = $1, year = $2, runtime= $3, genres = $4, version = version +1 WHERE id = $5 AND version = $6 RETURNING version''"

text \<open>
  \<open>QueryRow(query, args...).Scan(&movie.Version)\<close>: the store updates the row with the given
  id if its version is the given one and returns the new version; \<open>Scan\<close> gives
  \<open>sql.ErrNoRows\<close> when no row was returned.
\<close>

definition QueryRow_MovieModel_Update ::
  "db_error option \<Rightarrow> (int \<rightharpoonup> Movie) \<Rightarrow> Movie \<Rightarrow> (db_error + int) \<times> (int \<rightharpoonup> Movie)" where
  "QueryRow_MovieModel_Update fault movies movie =
     (case Exec fault MovieModel_Update_query of
        Some e \<Rightarrow> (Inl e, movies)
      | None \<Rightarrow>
          (case movies (Movie.ID movie) of
             None \<Rightarrow> (Inl ErrNoRows, movies)
           | Some row \<Rightarrow>
               if Movie.Version row \<noteq> Movie.Version movie then (Inl ErrNoRows, movies)
               else if Movie.Version row + 1 > max_version then (Inl IntegerOutOfRange, movies)
               else (Inr (Movie.Version row + 1),
                     movies(Movie.ID movie \<mapsto>
                       row\<lparr>Title := Title movie, Year := Year movie, Runtime := Runtime movie,
                           Genres := Genres movie, Movie.Version := Movie.Version row + 1\<rparr>))))"

text \<open>The result is the error (or \<open>nil\<close>), the movie struct behind the pointer, and the table.\<close>

definition MovieModel_Update ::
  "db_error option \<Rightarrow> (int \<rightharpoonup> Movie) \<Rightarrow> Movie \<Rightarrow> error option \<times> Movie \<times> (int \<rightharpoonup> Movie)" where
  "MovieModel_Update fault movies movie =
     (case QueryRow_MovieModel_Update fault movies movie of
        (Inl err, movies') \<Rightarrow>
          if err = ErrNoRows then (Some ErrEditConflict, movie, movies')
          else (Some (DBError err), movie, movies')
      | (Inr version, movies') \<Rightarrow> (None, movie\<lparr>Movie.Version := version\<rparr>, movies'))"

definition UserModel_Update_query :: string where
  "UserModel_Update_query =
     ''UPDATE users SET name = $1, email = $2, password_hash = $3, activated = $4, version = version + 1 WHERE id = $5 AND version = $6 RETURNING version''"

text \<open>
  A violation of a constraint of the users table (the unique email) is a failure of the
  statement that the store reports: it comes in through \<open>fault\<close>.
\<close>

definition QueryRow_UserModel_Update ::
  "db_error option \<Rightarrow> (int \<rightharpoonup> User) \<Rightarrow> User \<Rightarrow> (db_error + int) \<times> (int \<rightharpoonup> User)" where
  "QueryRow_UserModel_Update fault users user =
     (case Exec fault UserModel_Update_query of
        Some e \<Rightarrow> (Inl e, users)
      | None \<Rightarrow>
          (case users (User.ID user) of
             None \<Rightarrow> (Inl ErrNoRows, users)
           | Some row \<Rightarrow>
               if Version row \<noteq> Version user then (Inl ErrNoRows, users)
               else if Version row + 1 > max_version then (Inl IntegerOutOfRange, users)
               else (Inr (Version row + 1),
                     users(User.ID user \<mapsto>
                       row\<lparr>Name := Name user, Email := Email user,
                           Password := (Password row)\<lparr>hash := hash (Password user)\<rparr>,
                           Activated := Activated user, Version := Version row + 1\<rparr>))))"

definition UserModel_Update ::
  "db_error option \<Rightarrow> (int \<rightharpoonup> User) \<Rightarrow> User \<Rightarrow> error option \<times> User \<times> (int \<rightharpoonup> User)" where
  "UserModel_Update fault users user =
     (case QueryRow_UserModel_Update fault users user of
        (Inl err, users') \<Rightarrow>
          if Error_text err =
               ''pq: duplicate key value violates unique constraint '' @ [CHR 0x22] @ ''user_email_key''
          then (Some ErrDuplicateEmail, user, users')
          else if err = ErrNoRows then (Some ErrEditConflict, user, users')
          else (Some (DBError err), user, users')
      | (Inr version, users') \<Rightarrow> (None, user\<lparr>Version := version\<rparr>, users'))"

section \<open>The rate limiter\<close>

subsection \<open>The token bucket\<close>

text \<open>
  Modelled from the spec: \<open>rate.Limiter\<close> (package \<open>golang.org/x/time/rate\<close>) is not among
  the sources. The spec: a classic token bucket; each client key owns a bucket that refills
  continuously at \<open>rate\<close> permits per second up to \<open>burst\<close>; an admission attempts to
  withdraw one token and is denied if none is available; a fresh bucket is full. The
  bucket holds its fill level and the time of its last change; the fill level is a
  rational number, where the library computes in floating point.
\<close>

record Limiter =
  lim_limit :: rat
  lim_burst :: int
  lim_tokens :: rat
  lim_last :: time

definition NewLimiter :: "rat \<Rightarrow> int \<Rightarrow> Limiter" where
  "NewLimiter r b = \<lparr>lim_limit = r, lim_burst = b, lim_tokens = of_int b, lim_last = 0\<rparr>"

text \<open>The fill level at \<open>now\<close>: what was there plus the refill since the last change, capped.\<close>

definition advance :: "Limiter \<Rightarrow> time \<Rightarrow> rat" where
  "advance bkt now =
     (let last = (if now < lim_last bkt then now else lim_last bkt);
          elapsed = now - last;
          delta = of_int elapsed / of_int Second * lim_limit bkt;
          tokens = lim_tokens bkt + delta
      in if tokens > of_int (lim_burst bkt) then of_int (lim_burst bkt) else tokens)"

text \<open>\<open>Allow\<close> withdraws one token at \<open>now\<close>; a denied call leaves the bucket as it was.\<close>

definition Allow :: "Limiter \<Rightarrow> time \<Rightarrow> bool \<times> Limiter" where
  "Allow bkt now =
     (let tokens = advance bkt now - 1
      in if tokens < 0 then (False, bkt)
         else (True, bkt\<lparr>lim_last := now, lim_tokens := tokens\<rparr>))"

subsection \<open>The middleware\<close>

record client =
  limiter :: Limiter
  lastSeen :: time

record limiter_config =
  rps :: rat
  burst :: int
  enabled :: bool

text \<open>
  One pass of the background goroutine over the map, under the mutex: an entry that was
  last seen more than three minutes before \<open>now\<close> is deleted.
\<close>

definition sweep :: "time \<Rightarrow> (string \<rightharpoonup> client) \<Rightarrow> (string \<rightharpoonup> client)" where
  "sweep now clients =
     (\<lambda>ip. case clients ip of
              None \<Rightarrow> None
            | Some c \<Rightarrow> if now - lastSeen c > 3 * Minute then None else Some c)"

text \<open>
  The handler that \<open>rateLimit\<close> returns. The map of clients is its state, passed in and
  returned; \<open>now\<close> is the clock of this request (the two readings of the clock within one
  request are taken as one instant). \<open>net.SplitHostPort\<close> is the parameter \<open>SplitHostPort\<close>,
  giving the host of an address or the text of an error. The section between \<open>mu.Lock()\<close>
  and \<open>mu.Unlock()\<close> runs without interleaving.
\<close>

definition rateLimit ::
  "(string \<Rightarrow> string + string) \<Rightarrow> limiter_config \<Rightarrow> Handler \<Rightarrow> (string \<rightharpoonup> client) \<Rightarrow> time
     \<Rightarrow> ResponseWriter \<Rightarrow> request \<Rightarrow> outcome \<times> (string \<rightharpoonup> client)" where
  "rateLimit SplitHostPort cfg next clients now w r =
     (if enabled cfg then
        (case SplitHostPort (RemoteAddr r) of
           Inl err \<Rightarrow> (Respond w (serverErrorResponse (NetError err)), clients)
         | Inr ip \<Rightarrow>
             let clients =
                   (if clients ip = None
                    then clients(ip \<mapsto> \<lparr>limiter = NewLimiter (rps cfg) (burst cfg), lastSeen = 0\<rparr>)
                    else clients)
             in (case clients ip of
                   None \<Rightarrow> (Panicked ''nil pointer dereference'', clients)
                 | Some c \<Rightarrow>
                     let c = c\<lparr>lastSeen := now\<rparr>;
                         (ok, bkt) = Allow (limiter c) now;
                         clients = clients(ip \<mapsto> c\<lparr>limiter := bkt\<rparr>)
                     in if \<not> ok then (Respond w rateLimitExceededResponse, clients)
                        else (next w r, clients)))
      else (next w r, clients))"

text \<open>A run of requests of one client, one at each time of the list, in this order.\<close>

fun serve_requests ::
  "(string \<Rightarrow> string + string) \<Rightarrow> limiter_config \<Rightarrow> Handler \<Rightarrow> (string \<rightharpoonup> client)
     \<Rightarrow> ResponseWriter \<Rightarrow> request \<Rightarrow> time list \<Rightarrow> outcome list \<times> (string \<rightharpoonup> client)" where
  "serve_requests SplitHostPort cfg next clients w r [] = ([], clients)"
| "serve_requests SplitHostPort cfg next clients w r (now # ts) =
     (let (out, clients') = rateLimit SplitHostPort cfg next clients now w r;
          (outs, clients'') = serve_requests SplitHostPort cfg next clients' w r ts
      in (out # outs, clients''))"

text \<open>
  The bucket that a request of \<open>ip\<close> draws from: the one of its entry, or a new one when
  the key is not in the map. It is full at \<open>now\<close> when it has the rate and the burst of the
  configuration and its fill level at \<open>now\<close> is the burst.
\<close>

definition bucket :: "limiter_config \<Rightarrow> (string \<rightharpoonup> client) \<Rightarrow> string \<Rightarrow> Limiter" where
  "bucket cfg clients ip =
     (case clients ip of
        None \<Rightarrow> NewLimiter (rps cfg) (burst cfg)
      | Some c \<Rightarrow> limiter c)"

definition bucket_full :: "limiter_config \<Rightarrow> (string \<rightharpoonup> client) \<Rightarrow> string \<Rightarrow> time \<Rightarrow> bool" where
  "bucket_full cfg clients ip now =
     (lim_limit (bucket cfg clients ip) = rps cfg
      \<and> lim_burst (bucket cfg clients ip) = burst cfg
      \<and> advance (bucket cfg clients ip) now = of_int (burst cfg))"

section \<open>Sample values\<close>

text \<open>Concrete inputs at which the theorems below are instantiated.\<close>

definition sample_user :: User where
  "sample_user = \<lparr>User.ID = 7, CreatedAt = 0, Name = ''Alice'', Email = ''alice@example.com'',
     Password = \<lparr>plaintext = None, hash = Some [1, 2, 3]\<rparr>, Activated = True, Version = 1\<rparr>"

definition sample_request :: "user_ref option \<Rightarrow> request" where
  "sample_request u = \<lparr>Header = Map.empty, RemoteAddr = ''10.0.0.1:4000'', ctx_user = u\<rparr>"

text \<open>User 7 holds both permissions on movies.\<close>

definition sample_tables :: permission_tables where
  "sample_tables = \<lparr>tbl_permissions = [1 \<mapsto> ''movies:read'', 2 \<mapsto> ''movies:write''],
     tbl_users_permissions = [(7, 1), (7, 2)], tbl_users = [7 \<mapsto> sample_user]\<rparr>"

text \<open>
  \<open>sample_digest\<close> stands in for the digest function where a concrete store is needed; the
  theorems hold for every digest function.
\<close>

definition sample_digest :: "string \<Rightarrow> byte list" where
  "sample_digest s = map (\<lambda>c. of_nat (of_char c)) s"

definition sample_token :: string where
  "sample_token = ''AAAQEAYEAUDAOCAJBIFQYDIOB4''"

definition bad_token :: string where
  "bad_token = ''!!!!!!!!!!!!!!!!!!!!!!!!!!''"

definition bearer_request :: "string \<Rightarrow> request" where
  "bearer_request token = \<lparr>Header = [''Authorization'' \<mapsto> [''Bearer '' @ token]],
     RemoteAddr = ''10.0.0.1:4000'', ctx_user = None\<rparr>"

definition sample_row :: "string \<Rightarrow> time \<Rightarrow> string \<Rightarrow> token_row" where
  "sample_row token expiry scope =
     \<lparr>t_hash = sample_digest token, t_user_id = 7, t_expiry = expiry, t_scope = scope\<rparr>"

definition sample_movie :: Movie where
  "sample_movie = \<lparr>Movie.ID = 3, CreatedAt = 0, Title = ''Casablanca'', Year = 1942,
     Runtime = 102, Genres = [''drama''], Version = 1\<rparr>"

text \<open>The defaults of the command-line flags: two requests per second, a burst of four.\<close>

definition default_limiter :: limiter_config where
  "default_limiter = \<lparr>rps = 2, burst = 4, enabled = True\<rparr>"

text \<open>Three requests per second: \<open>1/rate\<close> seconds is no whole number of nanoseconds.\<close>

definition three_per_second :: limiter_config where
  "three_per_second = \<lparr>rps = 3, burst = 2, enabled = True\<rparr>"

text \<open>A configuration that the flags accept as well: no burst at all.\<close>

definition no_burst_limiter :: limiter_config where
  "no_burst_limiter = \<lparr>rps = 2, burst = 0, enabled = True\<rparr>"

definition sample_SplitHostPort :: "string \<Rightarrow> string + string" where
  "sample_SplitHostPort addr = Inr (takeWhile (\<lambda>c. c \<noteq> CHR '':'') addr)"

definition idle_clients :: "string \<rightharpoonup> client" where
  "idle_clients = [''10.0.0.1'' \<mapsto>
     \<lparr>limiter = \<lparr>lim_limit = 2, lim_burst = 4, lim_tokens = 0, lim_last = 0\<rparr>, lastSeen = 0\<rparr>]"

section \<open>Theorems\<close>

subsection \<open>C10: the panic of ValidateUser\<close>

text \<open>
  C10. For every user whose password hash is nil, \<open>ValidateUser\<close> panics (with the value
  "missing password hash for user") instead of returning the validator with a validation
  error, whatever the other fields and the validator hold; for every user whose hash is
  not nil it does not panic and returns a validator.
\<close>

theorem ValidateUser_panics_iff_hash_nil:
  "(hash (Password user) = None \<longrightarrow>
      ValidateUser EmailRX v user = Inl ''missing password hash for user'')
   \<and> (hash (Password user) \<noteq> None \<longrightarrow> (\<exists>v'. ValidateUser EmailRX v user = Inr v'))"
  by (simp add: ValidateUser_def Let_def)

theorem ValidateUser_panics_iff_hash_nil_witness:
  "hash (Password \<lparr>User.ID = 1, CreatedAt = 0, Name = [], Email = ''a@b.c'',
        Password = \<lparr>plaintext = Some ''pa55word'', hash = None\<rparr>,
        Activated = False, Version = 1\<rparr>) = None
   \<and> ValidateUser (\<lambda>e. True) New
        \<lparr>User.ID = 1, CreatedAt = 0, Name = [], Email = ''a@b.c'',
         Password = \<lparr>plaintext = Some ''pa55word'', hash = None\<rparr>,
         Activated = False, Version = 1\<rparr> = Inl ''missing password hash for user''
   \<and> hash (Password \<lparr>User.ID = 1, CreatedAt = 0, Name = [], Email = ''a@b.c'',
        Password = \<lparr>plaintext = Some ''pa55word'', hash = Some [1, 2]\<rparr>,
        Activated = False, Version = 1\<rparr>) \<noteq> None
   \<and> ValidateUser (\<lambda>e. True) New
        \<lparr>User.ID = 1, CreatedAt = 0, Name = [], Email = ''a@b.c'',
         Password = \<lparr>plaintext = Some ''pa55word'', hash = Some [1, 2]\<rparr>,
         Activated = False, Version = 1\<rparr> = Inr [(''name'', ''mst be provided'')]"
  using ValidateUser_panics_iff_hash_nil
    [of "\<lparr>User.ID = 1, CreatedAt = 0, Name = [], Email = ''a@b.c'',
         Password = \<lparr>plaintext = Some ''pa55word'', hash = None\<rparr>,
         Activated = False, Version = 1\<rparr>" "\<lambda>e. True" New]
  by (simp add: ValidateUser_def ValidateEmail_def ValidatePasswordPlainText_def
      Check_def AddError_def New_def)

subsection \<open>C4: the permission gate\<close>

lemma Include_iff_mem: "Include ps code \<longleftrightarrow> code \<in> set ps"
  by (induction ps) auto

text \<open>
  The query of \<open>GetAllForUser\<close> qualifies a column by \<open>permission\<close>, where its clauses bring
  in \<open>permissions\<close>: the store rejects it, so the call returns an error for every user and
  every content of the tables.
\<close>

lemma Prepare_GetAllForUser_query:
  "Prepare GetAllForUser_query = Some (MissingFromClause ''permission'')"
  by (simp add: Prepare_def GetAllForUser_query_def sql_words_def check_query_def
      qualifiers_def relations_def)

lemma GetAllForUser_never_succeeds:
  "GetAllForUser fault tables userID =
     Inl (DBError (case fault of Some e \<Rightarrow> e | None \<Rightarrow> MissingFromClause ''permission''))"
  by (simp add: GetAllForUser_def Exec_def Prepare_GetAllForUser_query split: option.splits)

text \<open>What the join would give for the sample tables, had the store accepted the query.\<close>

lemma permission_rows_sample: "permission_rows sample_tables 7 = [''movies:read'', ''movies:write'']"
  by (simp add: permission_rows_def sample_tables_def)

text \<open>
  C4 (the code departs from it). The first two gates are as C4 says, in this order: the
  authentication-required response for the Anonymous identity, then the inactive-account
  response for a user who is not activated. For every other request the read of the
  permissions fails, whatever the tables hold, and \<open>requiredPermission\<close> answers a server
  error: the wrapped handler is never reached, also for a user who holds the code, and the
  not-permitted response is never given.
\<close>

theorem requiredPermission_never_permits:
  "requiredPermission fault tables code next w (r\<lparr>ctx_user := Some ident\<rparr>) =
     (if ident = AnonymousUser then Respond w authenticationRequiredResponse
      else if \<not> Activated (deref ident) then Respond w inactiveAccountResponse
      else Respond w (serverErrorResponse
             (DBError (case fault of Some e \<Rightarrow> e | None \<Rightarrow> MissingFromClause ''permission''))))"
  by (simp add: requiredPermission_def requireActivatedUser_def requireAuthenticatedUser_def
      contextGetUser_def IsAnonymous_def Let_def GetAllForUser_never_succeeds)

theorem requiredPermission_never_permits_witness:
  "requiredPermission None sample_tables ''movies:write'' Served []
     (sample_request (Some (UserPtr sample_user)))
   = Respond [] (serverErrorResponse (DBError (MissingFromClause ''permission'')))"
  using requiredPermission_never_permits [where fault = None and tables = sample_tables
      and code = "''movies:write''" and w = "[]" and r = "sample_request None"
      and ident = "UserPtr sample_user", of Served]
  by (simp add: sample_request_def sample_user_def)

subsection \<open>C9: a request without an Authorization header\<close>

text \<open>
  C9. For every request that carries no Authorization header, \<open>authenticate\<close> writes no
  response of its own: it adds the Vary header, puts the Anonymous identity into the request
  context and calls the next handler, whatever the store would answer; a rejection is left
  to the gates downstream.
\<close>

theorem authenticate_no_header:
  assumes "Header r ''Authorization'' = None"
  shows "authenticate G next w r =
     next (w @ [(''Vary'', ''Authorization'')]) (contextSetUser r AnonymousUser)"
  using assms by (simp add: authenticate_def Header_Get_def)

theorem authenticate_no_header_witness:
  "Header (sample_request None) ''Authorization'' = None
   \<and> authenticate (\<lambda>scope token. Inl ErrRecordNotFound) (requireAuthenticatedUser Served) []
        (sample_request None)
     = Respond [(''Vary'', ''Authorization'')] authenticationRequiredResponse
   \<and> authenticate (\<lambda>scope token. Inl ErrRecordNotFound) Served [] (sample_request None)
     = Served [(''Vary'', ''Authorization'')] (sample_request (Some AnonymousUser))"
proof -
  have h: "Header (sample_request None) ''Authorization'' = None"
    by (simp add: sample_request_def)
  show ?thesis
    using authenticate_no_header [OF h, of "\<lambda>scope token. Inl ErrRecordNotFound" Served "[]"]
      authenticate_no_header [OF h, of "\<lambda>scope token. Inl ErrRecordNotFound"
        "requireAuthenticatedUser Served" "[]"]
    by (simp add: sample_request_def contextSetUser_def requireAuthenticatedUser_def
        contextGetUser_def IsAnonymous_def)
qed

subsection \<open>The header of a bearer token\<close>

lemma Split_no_sep: "sep \<notin> set s \<Longrightarrow> Split s sep = [s]"
  by (induction s) auto

lemma length_Split: "length (Split s sep) = Suc (length (filter (\<lambda>c. c = sep) s))"
  by (induction s) (auto split: list.splits)

lemma Split_nonempty: "Split s sep \<noteq> []"
  using length_Split [of s sep] by auto

lemma Split_Cons_other: "c \<noteq> sep \<Longrightarrow> Split (c # cs) sep = (c # hd (Split cs sep)) # tl (Split cs sep)"
  using Split_nonempty [of cs sep] by (simp split: list.splits)

lemma Split_Cons_sep: "Split (sep # cs) sep = [] # Split cs sep"
  by simp

lemma Split_Bearer: "Split (''Bearer '' @ token) CHR '' '' = ''Bearer'' # Split token CHR '' ''"
  by (simp add: Split_Cons_other Split_Cons_sep del: Split.simps)

lemma Split_Bearer_length:
  "length (Split (''Bearer '' @ token) CHR '' '') = 2 \<longleftrightarrow> CHR '' '' \<notin> set token"
  unfolding Split_Bearer by (auto simp: length_Split filter_empty_conv)

lemma Valid_ValidateTokenPlainText:
  "Valid (ValidateTokenPlainText New token) \<longleftrightarrow> length token = 26"
  by (auto simp: ValidateTokenPlainText_def Valid_def Check_def AddError_def New_def Let_def)

lemma authenticate_parts:
  assumes "Header_Get (Header r) ''Authorization'' = a" and "a \<noteq> []"
    and "Split a CHR '' '' = parts"
  shows "authenticate G next w r =
     (if length parts \<noteq> 2 \<or> parts ! 0 \<noteq> ''Bearer'' \<or> length (parts ! 1) \<noteq> 26
      then Respond (w @ [(''Vary'', ''Authorization'')]) invalidAuthenticationTokenResponse
      else (case G ScopeAuthentication (parts ! 1) of
              Inl err \<Rightarrow>
                if err = ErrRecordNotFound
                then Respond (w @ [(''Vary'', ''Authorization'')]) invalidAuthenticationTokenResponse
                else Respond (w @ [(''Vary'', ''Authorization'')]) (serverErrorResponse err)
            | Inr user \<Rightarrow> next (w @ [(''Vary'', ''Authorization'')])
                           (contextSetUser r (UserPtr user))))"
  unfolding authenticate_def Let_def assms(1) assms(3)
  using assms(2) by (simp add: Valid_ValidateTokenPlainText del: Split.simps)

text \<open>
  What \<open>authenticate\<close> does with a header \<open>Bearer <token>\<close>: the token is refused when it
  holds a space (the header then splits into more than two parts) or is not 26 bytes long,
  and is looked up otherwise.
\<close>

lemma authenticate_Bearer:
  assumes "Header r ''Authorization'' = Some [''Bearer '' @ token]"
  shows "authenticate G next w r =
     (if CHR '' '' \<in> set token \<or> length token \<noteq> 26
      then Respond (w @ [(''Vary'', ''Authorization'')]) invalidAuthenticationTokenResponse
      else (case G ScopeAuthentication token of
              Inl err \<Rightarrow>
                if err = ErrRecordNotFound
                then Respond (w @ [(''Vary'', ''Authorization'')]) invalidAuthenticationTokenResponse
                else Respond (w @ [(''Vary'', ''Authorization'')]) (serverErrorResponse err)
            | Inr user \<Rightarrow> next (w @ [(''Vary'', ''Authorization'')])
                           (contextSetUser r (UserPtr user))))"
proof -
  define a where "a = ''Bearer '' @ token"
  have h: "Header_Get (Header r) ''Authorization'' = a"
    using assms unfolding a_def by (simp add: Header_Get_def)
  have ne: "a \<noteq> []" unfolding a_def by simp
  show ?thesis
  proof (cases "CHR '' '' \<in> set token")
    case True
    then have "length (Split a CHR '' '') \<noteq> 2"
      unfolding a_def using Split_Bearer_length [of token] by blast
    then show ?thesis
      using True authenticate_parts [OF h ne refl, of G "next" w] by simp
  next
    case False
    then have s: "Split a CHR '' '' = [''Bearer'', token]"
      unfolding a_def Split_Bearer by (simp add: Split_no_sep)
    show ?thesis
      using False authenticate_parts [OF h ne s, of G "next" w] by simp
  qed
qed

lemma bearer_request_Header:
  "Header (bearer_request token) ''Authorization'' = Some [''Bearer '' @ token]"
  by (simp add: bearer_request_def)

lemma length_sample_token: "length sample_token = 26"
  by (simp add: sample_token_def)

lemma sample_token_no_space: "CHR '' '' \<notin> set sample_token"
  by (simp add: sample_token_def)


text \<open>A live token of the right scope is served, as the user it belongs to.\<close>

lemma authenticate_live_token:
  "authenticate (GetForToken sample_digest [sample_row sample_token 20 ScopeAuthentication]
       [7 \<mapsto> sample_user] 10 None) Served [] (bearer_request sample_token)
   = Served [(''Vary'', ''Authorization'')]
       (contextSetUser (bearer_request sample_token) (UserPtr sample_user))"
  using authenticate_Bearer [OF bearer_request_Header, of
      "GetForToken sample_digest [sample_row sample_token 20 ScopeAuthentication] [7 \<mapsto> sample_user] 10 None"
      Served "[]"]
  by (simp add: length_sample_token sample_token_no_space GetForToken_def matching_tokens_def
      sample_row_def sample_user_def)

subsection \<open>C3: one answer for every credential that does not authenticate\<close>





subsection \<open>C7: malformed values and the store\<close>

text \<open>
  C7, as stated, fails: the format check of \<open>ValidateTokenPlainText\<close> is on the length only.
  A value of 26 bytes outside the base-32 alphabet passes it and is looked up in the store,
  so that the answer follows the store: served as the user the store gives, the
  invalid-token response when the store has no record, a server error when the store fails.
\<close>

theorem authenticate_wrong_charset_counterexample:
  "CHR ''!'' \<in> set bad_token \<and> CHR ''!'' \<notin> set encodeStd
   \<and> authenticate (\<lambda>scope token. Inr sample_user) Served [] (bearer_request bad_token)
     = Served [(''Vary'', ''Authorization'')]
         (contextSetUser (bearer_request bad_token) (UserPtr sample_user))
   \<and> authenticate (\<lambda>scope token. Inl ErrRecordNotFound) Served [] (bearer_request bad_token)
     = Respond [(''Vary'', ''Authorization'')] invalidAuthenticationTokenResponse
   \<and> authenticate (\<lambda>scope token. Inl (DBError StoreUnavailable)) Served []
       (bearer_request bad_token)
     = Respond [(''Vary'', ''Authorization'')] (serverErrorResponse (DBError StoreUnavailable))"
proof -
  have c: "CHR ''!'' \<in> set bad_token" "CHR ''!'' \<notin> set encodeStd"
    by (simp_all add: bad_token_def encodeStd_def)
  have f: "CHR '' '' \<notin> set bad_token" "length bad_token = 26"
    by (simp_all add: bad_token_def)
  show ?thesis
    using c f authenticate_Bearer [OF bearer_request_Header, of "\<lambda>scope token. Inr sample_user"
        Served "[]" bad_token]
      authenticate_Bearer [OF bearer_request_Header, of "\<lambda>scope token. Inl ErrRecordNotFound"
        Served "[]" bad_token]
      authenticate_Bearer [OF bearer_request_Header, of
        "\<lambda>scope token. Inl (DBError StoreUnavailable)" Served "[]" bad_token]
    by simp
qed

text \<open>
  C7, amended. For every bearer value presented as \<open>Authorization: Bearer <token>\<close> whose
  length is not 26 bytes (the empty value included), \<open>authenticate\<close> answers the
  invalid-authentication-token response before any lookup: the answer is the same for every
  answer \<open>G\<close> the store could give, and the next handler is not called.
\<close>

theorem authenticate_rejects_wrong_length:
  assumes "Header r ''Authorization'' = Some [''Bearer '' @ token]"
    and "length token \<noteq> 26"
  shows "authenticate G next w r =
     Respond (w @ [(''Vary'', ''Authorization'')]) invalidAuthenticationTokenResponse"
  using assms(2) authenticate_Bearer [OF assms(1), of G "next" w] by simp

theorem authenticate_rejects_wrong_length_witness:
  "Header (bearer_request ''abc'') ''Authorization'' = Some [''Bearer '' @ ''abc'']
   \<and> length ''abc'' \<noteq> 26
   \<and> authenticate (\<lambda>scope token. Inr sample_user) Served [] (bearer_request ''abc'')
     = Respond [(''Vary'', ''Authorization'')] invalidAuthenticationTokenResponse
   \<and> authenticate (\<lambda>scope token. Inl (DBError StoreUnavailable)) Served [] (bearer_request [])
     = Respond [(''Vary'', ''Authorization'')] invalidAuthenticationTokenResponse"
proof -
  have l: "length ''abc'' \<noteq> 26" by simp
  have l0: "length ([] :: string) \<noteq> 26" by simp
  show ?thesis
    using authenticate_rejects_wrong_length [OF bearer_request_Header l,
        of "\<lambda>scope token. Inr sample_user" Served "[]"]
      authenticate_rejects_wrong_length [OF bearer_request_Header l0,
        of "\<lambda>scope token. Inl (DBError StoreUnavailable)" Served "[]"]
      bearer_request_Header [of "''abc''"]
    by simp
qed

subsection \<open>C2: issuing a token\<close>

lemma length_groups5: "length (groups5 bs) = (length bs + 4) div 5"
proof (induction bs rule: groups5.induct)
  case 1
  show ?case by simp
next
  case (2 b bs)
  have "Suc ((length bs - 4 + 4) div 5) = (length bs + 5) div 5"
    by arith
  with 2 show ?case by simp
qed

lemma length_EncodeToString: "length (EncodeToString src) = (8 * length src + 4) div 5"
  by (simp add: EncodeToString_def length_groups5 length_concat byte_bits_def o_def sum_list_triv)

lemma bits_val_foldl:
  "foldl (\<lambda>n b. 2 * n + (if b then 1 else 0)) (k::nat) bs < (k + 1) * 2 ^ length bs"
proof (induction bs arbitrary: k)
  case Nil show ?case by simp
next
  case (Cons b bs)
  have "foldl (\<lambda>n b. 2 * n + (if b then 1 else 0)) (2 * k + (if b then 1 else 0)) bs
        < (2 * k + (if b then 1 else 0) + 1) * 2 ^ length bs"
    by (rule Cons.IH)
  also have "\<dots> \<le> (k + 1) * 2 ^ length (b # bs)"
    by (simp add: algebra_simps)
  finally show ?case by simp
qed

lemma bits_val_less: "bits_val bs < 2 ^ length bs"
  using bits_val_foldl [of 0 bs] by (simp add: bits_val_def)

lemma groups5_length5: "g \<in> set (groups5 bs) \<Longrightarrow> length g = 5"
  by (induction bs arbitrary: g rule: groups5.induct) auto

lemma EncodeToString_alphabet: "set (EncodeToString src) \<subseteq> set encodeStd"
proof -
  have "encodeStd ! bits_val g \<in> set encodeStd" if "g \<in> set (groups5 bs)" for g bs
  proof -
    have "bits_val g < 2 ^ 5" using bits_val_less [of g] groups5_length5 [OF that] by simp
    then have "bits_val g < length encodeStd" by (simp add: encodeStd_def)
    then show ?thesis by (rule nth_mem)
  qed
  then show ?thesis by (auto simp: EncodeToString_def)
qed

lemma Prepare_Insert_query: "Prepare Insert_query = Some (UndefinedTable ''tokesn'')"
  by (simp add: Prepare_def Insert_query_def sql_words_def check_relation_def relations_def)

lemma Exec_Insert_query: "Exec fault Insert_query \<noteq> None"
  by (simp add: Exec_def Prepare_Insert_query split: option.splits)

text \<open>Whatever the store does, the insert records nothing and returns an error.\<close>

lemma TokenModel_Insert_never_succeeds:
  "fst (TokenModel_Insert fault tokens token) \<noteq> None
   \<and> snd (TokenModel_Insert fault tokens token) = tokens"
  using Exec_Insert_query [of fault]
  by (auto simp: TokenModel_Insert_def split: option.splits)

text \<open>
  The token built in memory is as C2 says: sixteen bytes of the random source, written in
  base 32 without padding (26 characters of the alphabet, which the format check accepts),
  the digest of that plaintext, the expiry \<open>now + ttl\<close> and the scope; it fails only when the
  random source does.
\<close>

lemma generatedToken_fields:
  "generatedToken Sum256 (Some rnd) now userID ttl scope =
     Inr \<lparr>Plaintext = EncodeToString (map rnd [0..<16]),
          Hash = Sum256 (EncodeToString (map rnd [0..<16])),
          UserID = userID, Expiry = now + ttl, Scope = scope\<rparr>"
  by (simp add: generatedToken_def rand_Read_def)

lemma generatedToken_entropy_failure:
  "generatedToken Sum256 None now userID ttl scope = Inl EntropyFailure"
  by (simp add: generatedToken_def rand_Read_def)

lemma generatedToken_plaintext:
  assumes "generatedToken Sum256 rnd now userID ttl scope = Inr token"
  shows "length (Plaintext token) = 26 \<and> set (Plaintext token) \<subseteq> set encodeStd
     \<and> Valid (ValidateTokenPlainText New (Plaintext token))"
proof -
  obtain f where "rnd = Some f"
    using assms by (cases rnd) (simp_all add: generatedToken_def rand_Read_def)
  then have "Plaintext token = EncodeToString (map f [0..<16])"
    using assms generatedToken_fields [of Sum256 f now userID ttl scope] by auto
  then show ?thesis
    using EncodeToString_alphabet [of "map f [0..<16]"]
    by (simp add: length_EncodeToString Valid_ValidateTokenPlainText)
qed

text \<open>
  C2 (the code departs from it). With a working random source and a store that answers,
  \<open>TokenModel.New\<close> builds the token as above, but its statement inserts into the relation
  \<open>tokesn\<close>, which the schema does not hold: the store rejects the statement, \<open>New\<close> returns
  the token together with that error, and the tokens table is unchanged. Nothing is
  recorded, although neither the random source nor the store has failed.
\<close>

theorem TokenModel_New_never_records:
  "TokenModel_New Sum256 (Some rnd) now None tokens userID ttl scope =
     ((Some \<lparr>Plaintext = EncodeToString (map rnd [0..<16]),
             Hash = Sum256 (EncodeToString (map rnd [0..<16])),
             UserID = userID, Expiry = now + ttl, Scope = scope\<rparr>,
       Some (DBError (UndefinedTable ''tokesn''))), tokens)"
  by (simp add: TokenModel_New_def generatedToken_fields TokenModel_Insert_def Exec_def
      Prepare_Insert_query)

subsection \<open>C8: invalidating the tokens of a user\<close>

lemma Prepare_DeleteAllForUser_query:
  "Prepare DeleteAllForUser_query = Some (SyntaxError ''DLETE'')"
  by (simp add: Prepare_def DeleteAllForUser_query_def sql_words_def)

lemma Exec_DeleteAllForUser_query: "Exec fault DeleteAllForUser_query \<noteq> None"
  by (simp add: Exec_def Prepare_DeleteAllForUser_query split: option.splits)

text \<open>Whatever the store does, the call deletes nothing and returns an error.\<close>

lemma TokenModel_DeleteAllForUser_never_succeeds:
  "fst (TokenModel_DeleteAllForUser fault tokens scope userID) \<noteq> None
   \<and> snd (TokenModel_DeleteAllForUser fault tokens scope userID) = tokens"
  using Exec_DeleteAllForUser_query [of fault]
  by (auto simp: TokenModel_DeleteAllForUser_def split: option.splits)

text \<open>
  C8 (the code departs from it). The statement of \<open>DeleteAllForUser\<close> begins with the word
  \<open>DLETE\<close>, which is no command of the store: with a store that answers, every call returns
  the syntax error and leaves the tokens table as it was, for every scope and user. The
  call never completes successfully, and a token issued before it authenticates after it.
\<close>

theorem TokenModel_DeleteAllForUser_never_deletes:
  "TokenModel_DeleteAllForUser None tokens scope userID =
     (Some (DBError (SyntaxError ''DLETE'')), tokens)"
  by (simp add: TokenModel_DeleteAllForUser_def Exec_def Prepare_DeleteAllForUser_query)

lemma token_survives_DeleteAllForUser:
  "authenticate
     (GetForToken sample_digest
        (snd (TokenModel_DeleteAllForUser None [sample_row sample_token 20 ScopeAuthentication]
               ScopeAuthentication 7))
        [7 \<mapsto> sample_user] 10 None)
     Served [] (bearer_request sample_token)
   = Served [(''Vary'', ''Authorization'')]
       (contextSetUser (bearer_request sample_token) (UserPtr sample_user))"
  using authenticate_live_token
  by (simp add: TokenModel_DeleteAllForUser_def Exec_def Prepare_DeleteAllForUser_query)

subsection \<open>C1: the version check of an update\<close>

lemma Prepare_MovieModel_Update_query: "Prepare MovieModel_Update_query = None"
  by (simp add: Prepare_def MovieModel_Update_query_def sql_words_def check_relation_def
      relations_def)

lemma Prepare_UserModel_Update_query: "Prepare UserModel_Update_query = None"
  by (simp add: Prepare_def UserModel_Update_query_def sql_words_def check_relation_def
      relations_def)

lemma MovieModel_Update_success:
  assumes "MovieModel_Update fault movies movie = (None, movie', movies')"
  shows "\<exists>row. movies (Movie.ID movie) = Some row
           \<and> Movie.Version row = Movie.Version movie
           \<and> movies' = movies(Movie.ID movie \<mapsto>
                 row\<lparr>Title := Title movie, Year := Year movie, Runtime := Runtime movie,
                     Genres := Genres movie, Movie.Version := Movie.Version movie + 1\<rparr>)
           \<and> movie' = movie\<lparr>Movie.Version := Movie.Version movie + 1\<rparr>"
  using assms
  by (auto simp: MovieModel_Update_def QueryRow_MovieModel_Update_def
      split: option.splits if_splits sum.splits prod.splits)

lemma MovieModel_Update_conflict:
  assumes "\<forall>row. movies (Movie.ID movie) = Some row \<longrightarrow> Movie.Version row \<noteq> Movie.Version movie"
  shows "MovieModel_Update None movies movie = (Some ErrEditConflict, movie, movies)"
  using assms
  by (auto simp: MovieModel_Update_def QueryRow_MovieModel_Update_def Exec_def
      Prepare_MovieModel_Update_query split: option.splits)

lemma UserModel_Update_success:
  assumes "UserModel_Update fault users user = (None, user', users')"
  shows "\<exists>row. users (User.ID user) = Some row
           \<and> Version row = Version user
           \<and> users' = users(User.ID user \<mapsto>
                 row\<lparr>Name := Name user, Email := Email user,
                     Password := (Password row)\<lparr>hash := hash (Password user)\<rparr>,
                     Activated := Activated user, Version := Version user + 1\<rparr>)
           \<and> user' = user\<lparr>Version := Version user + 1\<rparr>"
  using assms
  by (auto simp: UserModel_Update_def QueryRow_UserModel_Update_def
      split: option.splits if_splits sum.splits prod.splits)

lemma UserModel_Update_conflict:
  assumes "\<forall>row. users (User.ID user) = Some row \<longrightarrow> Version row \<noteq> Version user"
  shows "UserModel_Update None users user = (Some ErrEditConflict, user, users)"
  using assms
  by (auto simp: UserModel_Update_def QueryRow_UserModel_Update_def Exec_def
      Prepare_UserModel_Update_query split: option.splits)

text \<open>
  When the store runs the statement, the stored version is the expected one and is below the
  range of the column, the update succeeds.
\<close>

lemma MovieModel_Update_match:
  assumes "movies (Movie.ID movie) = Some row" and "Movie.Version row = Movie.Version movie"
    and "Movie.Version movie < max_version"
  shows "MovieModel_Update None movies movie =
     (None, movie\<lparr>Movie.Version := Movie.Version movie + 1\<rparr>,
      movies(Movie.ID movie \<mapsto>
        row\<lparr>Title := Title movie, Year := Year movie, Runtime := Runtime movie,
            Genres := Genres movie, Movie.Version := Movie.Version movie + 1\<rparr>))"
  using assms
  by (simp add: MovieModel_Update_def QueryRow_MovieModel_Update_def Exec_def
      Prepare_MovieModel_Update_query)

lemma UserModel_Update_match:
  assumes "users (User.ID user) = Some row" and "Version row = Version user"
    and "Version user < max_version"
  shows "UserModel_Update None users user =
     (None, user\<lparr>Version := Version user + 1\<rparr>,
      users(User.ID user \<mapsto>
        row\<lparr>Name := Name user, Email := Email user,
            Password := (Password row)\<lparr>hash := hash (Password user)\<rparr>,
            Activated := Activated user, Version := Version user + 1\<rparr>))"
  using assms
  by (simp add: UserModel_Update_def QueryRow_UserModel_Update_def Exec_def
      Prepare_UserModel_Update_query)

text \<open>
  C1. For a movie and for a user alike: whenever \<open>Update\<close> returns no error, the table held a
  row of that id whose version was the expected one, the stored row now carries the new
  fields and the version \<open>expected + 1\<close>, and that version is written into the caller's
  struct; and whenever the store runs the statement and no row of that id has the expected
  version (the version has changed, or the row is gone), \<open>Update\<close> returns \<open>ErrEditConflict\<close>
  at once, with the table and the caller's struct as they were: the statement is sent once
  and nothing is tried again.
\<close>

theorem Update_optimistic_lock:
  "(MovieModel_Update fault movies movie = (None, movie', movies') \<longrightarrow>
      (\<exists>row. movies (Movie.ID movie) = Some row
         \<and> Movie.Version row = Movie.Version movie
         \<and> movies' = movies(Movie.ID movie \<mapsto>
               row\<lparr>Title := Title movie, Year := Year movie, Runtime := Runtime movie,
                   Genres := Genres movie, Movie.Version := Movie.Version movie + 1\<rparr>)
         \<and> movie' = movie\<lparr>Movie.Version := Movie.Version movie + 1\<rparr>))
   \<and> ((\<forall>row. movies (Movie.ID movie) = Some row \<longrightarrow> Movie.Version row \<noteq> Movie.Version movie) \<longrightarrow>
        MovieModel_Update None movies movie = (Some ErrEditConflict, movie, movies))
   \<and> (UserModel_Update fault users user = (None, user', users') \<longrightarrow>
      (\<exists>row. users (User.ID user) = Some row
         \<and> Version row = Version user
         \<and> users' = users(User.ID user \<mapsto>
               row\<lparr>Name := Name user, Email := Email user,
                   Password := (Password row)\<lparr>hash := hash (Password user)\<rparr>,
                   Activated := Activated user, Version := Version user + 1\<rparr>)
         \<and> user' = user\<lparr>Version := Version user + 1\<rparr>))
   \<and> ((\<forall>row. users (User.ID user) = Some row \<longrightarrow> Version row \<noteq> Version user) \<longrightarrow>
        UserModel_Update None users user = (Some ErrEditConflict, user, users))"
  using MovieModel_Update_success [of fault movies movie movie' movies']
    MovieModel_Update_conflict [of movies movie]
    UserModel_Update_success [of fault users user user' users']
    UserModel_Update_conflict [of users user]
  by blast

theorem Update_optimistic_lock_witness:
  "MovieModel_Update None [3 \<mapsto> sample_movie] (sample_movie\<lparr>Runtime := 103\<rparr>)
     = (None, sample_movie\<lparr>Runtime := 103, Movie.Version := 2\<rparr>,
        [3 \<mapsto> sample_movie\<lparr>Runtime := 103, Movie.Version := 2\<rparr>])
   \<and> MovieModel_Update None [3 \<mapsto> sample_movie\<lparr>Runtime := 103, Movie.Version := 2\<rparr>]
       (sample_movie\<lparr>Year := 1943\<rparr>)
     = (Some ErrEditConflict, sample_movie\<lparr>Year := 1943\<rparr>,
        [3 \<mapsto> sample_movie\<lparr>Runtime := 103, Movie.Version := 2\<rparr>])
   \<and> MovieModel_Update None Map.empty sample_movie
     = (Some ErrEditConflict, sample_movie, Map.empty)
   \<and> UserModel_Update None [7 \<mapsto> sample_user] (sample_user\<lparr>Activated := False\<rparr>)
     = (None, sample_user\<lparr>Activated := False, Version := 2\<rparr>,
        [7 \<mapsto> sample_user\<lparr>Activated := False, Version := 2\<rparr>])
   \<and> UserModel_Update None [7 \<mapsto> sample_user\<lparr>Activated := False, Version := 2\<rparr>]
       (sample_user\<lparr>Name := ''Bob''\<rparr>)
     = (Some ErrEditConflict, sample_user\<lparr>Name := ''Bob''\<rparr>,
        [7 \<mapsto> sample_user\<lparr>Activated := False, Version := 2\<rparr>])"
proof -
  have m1: "MovieModel_Update None [3 \<mapsto> sample_movie] (sample_movie\<lparr>Runtime := 103\<rparr>)
     = (None, sample_movie\<lparr>Runtime := 103, Movie.Version := 2\<rparr>,
        [3 \<mapsto> sample_movie\<lparr>Runtime := 103, Movie.Version := 2\<rparr>])"
    using MovieModel_Update_match [of "[3 \<mapsto> sample_movie]" "sample_movie\<lparr>Runtime := 103\<rparr>"
        sample_movie]
    by (simp add: sample_movie_def max_version_def)
  have u1: "UserModel_Update None [7 \<mapsto> sample_user] (sample_user\<lparr>Activated := False\<rparr>)
     = (None, sample_user\<lparr>Activated := False, Version := 2\<rparr>,
        [7 \<mapsto> sample_user\<lparr>Activated := False, Version := 2\<rparr>])"
    using UserModel_Update_match [of "[7 \<mapsto> sample_user]" "sample_user\<lparr>Activated := False\<rparr>"
        sample_user]
    by (simp add: sample_user_def max_version_def)
  have m2: "MovieModel_Update None [3 \<mapsto> sample_movie\<lparr>Runtime := 103, Movie.Version := 2\<rparr>]
       (sample_movie\<lparr>Year := 1943\<rparr>)
     = (Some ErrEditConflict, sample_movie\<lparr>Year := 1943\<rparr>,
        [3 \<mapsto> sample_movie\<lparr>Runtime := 103, Movie.Version := 2\<rparr>])"
    using Update_optimistic_lock [where movies = "[3 \<mapsto> sample_movie\<lparr>Runtime := 103, Movie.Version := 2\<rparr>]"
        and movie = "sample_movie\<lparr>Year := 1943\<rparr>"]
    by (simp add: sample_movie_def)
  have m3: "MovieModel_Update None Map.empty sample_movie
     = (Some ErrEditConflict, sample_movie, Map.empty)"
    using Update_optimistic_lock [where movies = Map.empty and movie = sample_movie]
    by simp
  have u2: "UserModel_Update None [7 \<mapsto> sample_user\<lparr>Activated := False, Version := 2\<rparr>]
       (sample_user\<lparr>Name := ''Bob''\<rparr>)
     = (Some ErrEditConflict, sample_user\<lparr>Name := ''Bob''\<rparr>,
        [7 \<mapsto> sample_user\<lparr>Activated := False, Version := 2\<rparr>])"
    using Update_optimistic_lock [where users = "[7 \<mapsto> sample_user\<lparr>Activated := False, Version := 2\<rparr>]"
        and user = "sample_user\<lparr>Name := ''Bob''\<rparr>"]
    by (simp add: sample_user_def)
  from m1 m2 m3 u1 u2 show ?thesis by simp
qed

subsection \<open>The token bucket and one request\<close>

lemma advance_same_instant:
  assumes "lim_last b = now" and "lim_tokens b \<le> of_int (lim_burst b)"
  shows "advance b now = lim_tokens b"
  using assms by (simp add: advance_def Let_def)

lemma Allow_granted:
  assumes "1 \<le> advance b now"
  shows "Allow b now = (True, b\<lparr>lim_last := now, lim_tokens := advance b now - 1\<rparr>)"
  using assms by (simp add: Allow_def Let_def)

lemma Allow_denied:
  assumes "advance b now < 1"
  shows "Allow b now = (False, b)"
  using assms by (simp add: Allow_def Let_def)

lemma advance_NewLimiter:
  assumes "0 \<le> r"
  shows "advance (NewLimiter r n) now = of_int n"
proof -
  have "0 \<le> of_int (now - (if now < 0 then now else 0)) / of_int Second * r"
    using assms by (simp add: Second_def)
  then show ?thesis
    by (auto simp: advance_def NewLimiter_def Let_def)
qed

lemma advance_le_burst: "advance b now \<le> of_int (lim_burst b)"
  by (simp add: advance_def Let_def)

lemma rateLimit_step:
  assumes "enabled cfg" and "SplitHostPort (RemoteAddr r) = Inr ip"
  shows "rateLimit SplitHostPort cfg next clients now w r =
     (if fst (Allow (bucket cfg clients ip) now) then next w r
      else Respond w rateLimitExceededResponse,
      clients(ip \<mapsto> \<lparr>limiter = snd (Allow (bucket cfg clients ip) now), lastSeen = now\<rparr>))"
  using assms
  by (cases "clients ip") (auto simp: rateLimit_def bucket_def Let_def split: prod.splits)

lemma bucket_after_step:
  "bucket cfg (clients(ip \<mapsto> \<lparr>limiter = b, lastSeen = t\<rparr>)) ip = b"
  by (simp add: bucket_def)

lemma rateLimit_granted:
  assumes "enabled cfg" and "SplitHostPort (RemoteAddr r) = Inr ip"
    and "1 \<le> advance (bucket cfg clients ip) now"
  shows "fst (rateLimit SplitHostPort cfg next clients now w r) = next w r"
    and "bucket cfg (snd (rateLimit SplitHostPort cfg next clients now w r)) ip =
       (bucket cfg clients ip)\<lparr>lim_last := now,
          lim_tokens := advance (bucket cfg clients ip) now - 1\<rparr>"
  using assms(3)
  by (simp_all add: rateLimit_step [where SplitHostPort = SplitHostPort and r = r, OF assms(1,2)] Allow_granted bucket_after_step)

lemma rateLimit_denied:
  assumes "enabled cfg" and "SplitHostPort (RemoteAddr r) = Inr ip"
    and "advance (bucket cfg clients ip) now < 1"
  shows "fst (rateLimit SplitHostPort cfg next clients now w r) = Respond w rateLimitExceededResponse"
    and "bucket cfg (snd (rateLimit SplitHostPort cfg next clients now w r)) ip =
       bucket cfg clients ip"
  using assms(3)
  by (simp_all add: rateLimit_step [where SplitHostPort = SplitHostPort and r = r, OF assms(1,2)] Allow_denied bucket_after_step)

lemma serve_requests_Cons:
  "serve_requests S cfg next clients w r (now # ts) =
     (fst (rateLimit S cfg next clients now w r)
        # fst (serve_requests S cfg next (snd (rateLimit S cfg next clients now w r)) w r ts),
      snd (serve_requests S cfg next (snd (rateLimit S cfg next clients now w r)) w r ts))"
  by (simp add: split_beta Let_def)

lemma serve_requests_append:
  "serve_requests S cfg next clients w r (xs @ ys) =
     (fst (serve_requests S cfg next clients w r xs)
        @ fst (serve_requests S cfg next (snd (serve_requests S cfg next clients w r xs)) w r ys),
      snd (serve_requests S cfg next (snd (serve_requests S cfg next clients w r xs)) w r ys))"
  by (induction xs arbitrary: clients) (simp_all add: split_beta Let_def)

text \<open>
  A run of \<open>k\<close> requests at one instant, from a bucket that holds \<open>k + m\<close> tokens then: all are
  passed on, and \<open>m\<close> tokens are left.
\<close>

lemma serve_requests_grants:
  assumes "enabled cfg" and "S (RemoteAddr r) = Inr ip"
    and "advance (bucket cfg clients ip) now = of_nat (k + m)"
  shows "fst (serve_requests S cfg next clients w r (replicate k now)) = replicate k (next w r)
     \<and> advance (bucket cfg (snd (serve_requests S cfg next clients w r (replicate k now))) ip) now
         = of_nat m
     \<and> lim_limit (bucket cfg (snd (serve_requests S cfg next clients w r (replicate k now))) ip)
         = lim_limit (bucket cfg clients ip)
     \<and> lim_burst (bucket cfg (snd (serve_requests S cfg next clients w r (replicate k now))) ip)
         = lim_burst (bucket cfg clients ip)
     \<and> (0 < k \<longrightarrow>
          lim_last (bucket cfg (snd (serve_requests S cfg next clients w r (replicate k now))) ip)
            = now
        \<and> lim_tokens (bucket cfg (snd (serve_requests S cfg next clients w r (replicate k now))) ip)
            = of_nat m)"
  using assms(3)
proof (induction k arbitrary: clients)
  case 0
  then show ?case by simp
next
  case (Suc k)
  let ?b = "bucket cfg clients ip"
  let ?c1 = "snd (rateLimit S cfg next clients now w r)"
  have adv: "advance ?b now = of_nat (Suc k + m)" using Suc.prems by simp
  then have ge: "1 \<le> advance ?b now" by simp
  have out: "fst (rateLimit S cfg next clients now w r) = next w r"
    using rateLimit_granted(1) [where SplitHostPort = S, OF assms(1,2) ge] .
  have b1: "bucket cfg ?c1 ip = ?b\<lparr>lim_last := now, lim_tokens := of_nat (k + m)\<rparr>"
    using rateLimit_granted(2) [where SplitHostPort = S, OF assms(1,2) ge, of "next" w] adv
    by simp
  have "of_nat (Suc k + m) \<le> (of_int (lim_burst ?b) :: rat)"
    using advance_le_burst [of ?b now] adv by simp
  then have le: "(of_nat (k + m) :: rat) \<le> of_int (lim_burst ?b)" by simp
  have adv1: "advance (bucket cfg ?c1 ip) now = of_nat (k + m)"
    unfolding b1 using le by (simp add: advance_same_instant)
  note ih = Suc.IH [OF adv1]
  have tok1: "k = 0 \<Longrightarrow> lim_tokens (bucket cfg ?c1 ip) = of_nat m"
    unfolding b1 by simp
  show ?case
    using ih out b1 tok1
    by (cases "k = 0") (simp_all add: serve_requests_Cons del: serve_requests.simps(2))
qed

lemma unseen_bucket_full:
  assumes "clients ip = None" and "0 \<le> rps cfg"
  shows "bucket_full cfg clients ip now"
  using assms by (simp add: bucket_full_def bucket_def advance_NewLimiter) (simp add: NewLimiter_def)

lemma advance_after_refill:
  assumes "lim_last b = now" and "lim_tokens b = 0" and "1 \<le> lim_burst b"
    and "of_int Second \<le> of_int wait * lim_limit b"
    and "of_int wait * lim_limit b < 2 * of_int Second" and "0 < lim_limit b"
  shows "1 \<le> advance b (now + wait) \<and> advance b (now + wait) < 2"
proof -
  have "(0::rat) < of_int wait * lim_limit b" using assms(4) by (simp add: Second_def)
  then have "(0::rat) < of_int wait" using assms(6) by (simp add: zero_less_mult_iff)
  then have w: "0 < wait" by simp
  define d where "d = of_int wait / of_int Second * lim_limit b"
  have d1: "1 \<le> d" using assms(4) unfolding d_def by (simp add: Second_def)
  have d2: "d < 2" using assms(5) unfolding d_def by (simp add: Second_def)
  have e: "now + wait - (if now + wait < lim_last b then now + wait else lim_last b) = wait"
    using w assms(1) by simp
  have a: "advance b (now + wait) = (if 0 + d > of_int (lim_burst b) then of_int (lim_burst b) else 0 + d)"
    unfolding advance_def Let_def e assms(2) d_def by (rule refl)
  have "(1::rat) \<le> of_int (lim_burst b)" using assms(3) by simp
  then show ?thesis using d1 d2 unfolding a by auto
qed

lemma sample_SplitHostPort_request:
  "sample_SplitHostPort (RemoteAddr (sample_request u)) = Inr ''10.0.0.1''"
  by (simp add: sample_SplitHostPort_def sample_request_def)

subsection \<open>C5: a burst, a denial, and one more after the refill\<close>

lemma serve_requests_burst:
  assumes "enabled cfg" and "S (RemoteAddr r) = Inr ip"
    and "bucket_full cfg clients ip now"
  shows "fst (serve_requests S cfg next clients w r (replicate (nat (burst cfg)) now))
       = replicate (nat (burst cfg)) (next w r)"
    and "advance (bucket cfg (snd (serve_requests S cfg next clients w r
            (replicate (nat (burst cfg)) now))) ip) now < 1"
    and "lim_limit (bucket cfg (snd (serve_requests S cfg next clients w r
            (replicate (nat (burst cfg)) now))) ip) = rps cfg"
    and "lim_burst (bucket cfg (snd (serve_requests S cfg next clients w r
            (replicate (nat (burst cfg)) now))) ip) = burst cfg"
    and "1 \<le> burst cfg \<Longrightarrow>
         lim_last (bucket cfg (snd (serve_requests S cfg next clients w r
            (replicate (nat (burst cfg)) now))) ip) = now
       \<and> lim_tokens (bucket cfg (snd (serve_requests S cfg next clients w r
            (replicate (nat (burst cfg)) now))) ip) = 0"
proof -
  let ?k = "nat (burst cfg)"
  let ?c1 = "snd (serve_requests S cfg next clients w r (replicate ?k now))"
  have full: "lim_limit (bucket cfg clients ip) = rps cfg"
    "lim_burst (bucket cfg clients ip) = burst cfg"
    "advance (bucket cfg clients ip) now = of_int (burst cfg)"
    using assms(3) by (simp_all add: bucket_full_def)
  show "fst (serve_requests S cfg next clients w r (replicate ?k now)) = replicate ?k (next w r)"
    and "advance (bucket cfg ?c1 ip) now < 1"
    and "lim_limit (bucket cfg ?c1 ip) = rps cfg"
    and "lim_burst (bucket cfg ?c1 ip) = burst cfg"
    and "1 \<le> burst cfg \<Longrightarrow> lim_last (bucket cfg ?c1 ip) = now \<and> lim_tokens (bucket cfg ?c1 ip) = 0"
  proof -
    consider (neg) "burst cfg < 0" | (nonneg) "0 \<le> burst cfg" by linarith
    then have "fst (serve_requests S cfg next clients w r (replicate ?k now)) = replicate ?k (next w r)
       \<and> advance (bucket cfg ?c1 ip) now < 1
       \<and> lim_limit (bucket cfg ?c1 ip) = rps cfg
       \<and> lim_burst (bucket cfg ?c1 ip) = burst cfg
       \<and> (1 \<le> burst cfg \<longrightarrow> lim_last (bucket cfg ?c1 ip) = now \<and> lim_tokens (bucket cfg ?c1 ip) = 0)"
    proof cases
      case neg
      then have k0: "?k = 0" by simp
      have "(of_int (burst cfg) :: rat) < 1" using neg by simp
      then show ?thesis using full neg by (simp add: k0)
    next
      case nonneg
      then have "advance (bucket cfg clients ip) now = of_nat (?k + 0)"
        using full(3) by simp
      note g = serve_requests_grants [where S = S and r = r and w = w, OF assms(1,2) this]
      show ?thesis using g full by auto
    qed
    then show "fst (serve_requests S cfg next clients w r (replicate ?k now)) = replicate ?k (next w r)"
      and "advance (bucket cfg ?c1 ip) now < 1"
      and "lim_limit (bucket cfg ?c1 ip) = rps cfg"
      and "lim_burst (bucket cfg ?c1 ip) = burst cfg"
      and "1 \<le> burst cfg \<Longrightarrow> lim_last (bucket cfg ?c1 ip) = now \<and> lim_tokens (bucket cfg ?c1 ip) = 0"
      by simp_all
  qed
qed

text \<open>
  C5, as stated, fails for a burst of zero, which the flag accepts: the bucket never holds a
  token, so that no request is passed on, not the one after a wait of \<open>1/rate\<close> seconds
  either.
\<close>

theorem rateLimit_no_burst_counterexample:
  "burst no_burst_limiter = 0
   \<and> of_int 500000000 * rps no_burst_limiter = of_int Second
   \<and> fst (serve_requests sample_SplitHostPort no_burst_limiter Served Map.empty []
          (sample_request None) [0, 500000000])
     = [Respond [] rateLimitExceededResponse, Respond [] rateLimitExceededResponse]"
proof -
  have en: "enabled no_burst_limiter" by (simp add: no_burst_limiter_def)
  have b0: "bucket no_burst_limiter Map.empty ''10.0.0.1'' = NewLimiter 2 0"
    by (simp add: bucket_def no_burst_limiter_def)
  have a0: "advance (NewLimiter 2 0) t < 1" for t
    using advance_le_burst [of "NewLimiter 2 0" t] by (simp add: NewLimiter_def)
  let ?c1 = "snd (rateLimit sample_SplitHostPort no_burst_limiter Served Map.empty 0 []
      (sample_request None))"
  have lt0: "advance (bucket no_burst_limiter Map.empty ''10.0.0.1'') 0 < 1"
    unfolding b0 by (rule a0)
  have o1: "fst (rateLimit sample_SplitHostPort no_burst_limiter Served Map.empty 0 []
      (sample_request None)) = Respond [] rateLimitExceededResponse"
    using rateLimit_denied(1) [where SplitHostPort = sample_SplitHostPort,
        OF en sample_SplitHostPort_request lt0] .
  have b1: "bucket no_burst_limiter ?c1 ''10.0.0.1'' = NewLimiter 2 0"
    using rateLimit_denied(2) [where SplitHostPort = sample_SplitHostPort,
        OF en sample_SplitHostPort_request lt0, of Served "[]" None] b0 by simp
  have lt1: "advance (bucket no_burst_limiter ?c1 ''10.0.0.1'') 500000000 < 1"
    unfolding b1 by (rule a0)
  have o2: "fst (rateLimit sample_SplitHostPort no_burst_limiter Served ?c1 500000000 []
      (sample_request None)) = Respond [] rateLimitExceededResponse"
    using rateLimit_denied(1) [where SplitHostPort = sample_SplitHostPort,
        OF en sample_SplitHostPort_request lt1] .
  show ?thesis
    using o1 o2
    by (simp add: serve_requests_Cons no_burst_limiter_def Second_def
        del: serve_requests.simps(2))
qed

text \<open>
  C5, amended. With the limiter enabled, for every client key whose bucket is full at \<open>now\<close>:
  \<open>burst\<close> requests at \<open>now\<close> are all passed to the next handler and the next request at \<open>now\<close>
  gets the rate-limit-exceeded response, for every rate and burst; with a rate above zero
  and a burst of at least one, after a wait that refills at least one token and less than
  two (\<open>1/rate\<close> seconds, or the next whole nanosecond), one request is passed on and the
  one after it is denied again. For a key that is not in the map, the request draws from a
  new bucket whose fill level is the burst and stores it in a new entry, and that bucket
  is full at \<open>now\<close> when the rate is not negative.
\<close>

theorem rateLimit_burst_then_refill:
  assumes "enabled cfg" and "S (RemoteAddr r) = Inr ip"
  shows "(bucket_full cfg clients ip now \<longrightarrow>
      fst (serve_requests S cfg next clients w r (replicate (nat (burst cfg)) now @ [now]))
        = replicate (nat (burst cfg)) (next w r) @ [Respond w rateLimitExceededResponse])
   \<and> (bucket_full cfg clients ip now \<and> 0 < rps cfg \<and> 1 \<le> burst cfg
        \<and> of_int Second \<le> of_int wait * rps cfg
        \<and> of_int wait * rps cfg < 2 * of_int Second \<longrightarrow>
      fst (serve_requests S cfg next clients w r
             (replicate (nat (burst cfg)) now @ [now, now + wait, now + wait]))
        = replicate (nat (burst cfg)) (next w r)
            @ [Respond w rateLimitExceededResponse, next w r,
               Respond w rateLimitExceededResponse])
   \<and> (clients ip = None \<longrightarrow>
      lim_tokens (bucket cfg clients ip) = of_int (burst cfg)
      \<and> snd (rateLimit S cfg next clients now w r) ip =
          Some \<lparr>limiter = snd (Allow (NewLimiter (rps cfg) (burst cfg)) now), lastSeen = now\<rparr>
      \<and> (0 \<le> rps cfg \<longrightarrow> bucket_full cfg clients ip now))"
proof (intro conjI impI)
  let ?k = "nat (burst cfg)"
  let ?c1 = "snd (serve_requests S cfg next clients w r (replicate ?k now))"
  assume full: "bucket_full cfg clients ip now"
  note g = serve_requests_burst [where S = S and r = r and w = w and clients = clients,
      OF assms(1,2) full]
  have out2: "fst (rateLimit S cfg next ?c1 now w r) = Respond w rateLimitExceededResponse"
    using rateLimit_denied(1) [where SplitHostPort = S, OF assms(1,2) g(2)] .
  show "fst (serve_requests S cfg next clients w r (replicate ?k now @ [now]))
        = replicate ?k (next w r) @ [Respond w rateLimitExceededResponse]"
    using g(1) out2
    by (simp add: serve_requests_append serve_requests_Cons del: serve_requests.simps(2))
next
  let ?k = "nat (burst cfg)"
  let ?c1 = "snd (serve_requests S cfg next clients w r (replicate ?k now))"
  let ?b1 = "bucket cfg ?c1 ip"
  assume h: "bucket_full cfg clients ip now \<and> 0 < rps cfg \<and> 1 \<le> burst cfg
        \<and> of_int Second \<le> of_int wait * rps cfg
        \<and> of_int wait * rps cfg < 2 * of_int Second"
  then have full: "bucket_full cfg clients ip now" and rate: "0 < rps cfg"
    and b: "1 \<le> burst cfg" and w1: "of_int Second \<le> of_int wait * rps cfg"
    and w2: "of_int wait * rps cfg < 2 * of_int Second" by simp_all
  note g = serve_requests_burst [where S = S and r = r and w = w and clients = clients,
      OF assms(1,2) full]
  have st1: "lim_last ?b1 = now" "lim_tokens ?b1 = 0" using g(5) [OF b] by simp_all
  \<comment> \<open>the next request at once\<close>
  let ?c2 = "snd (rateLimit S cfg next ?c1 now w r)"
  have out2: "fst (rateLimit S cfg next ?c1 now w r) = Respond w rateLimitExceededResponse"
    using rateLimit_denied(1) [where SplitHostPort = S, OF assms(1,2) g(2)] .
  have b2: "bucket cfg ?c2 ip = ?b1"
    using rateLimit_denied(2) [where SplitHostPort = S, OF assms(1,2) g(2)] .
  \<comment> \<open>after the wait\<close>
  let ?c3 = "snd (rateLimit S cfg next ?c2 (now + wait) w r)"
  have adv2: "1 \<le> advance (bucket cfg ?c2 ip) (now + wait)"
      "advance (bucket cfg ?c2 ip) (now + wait) < 2"
    unfolding b2 using advance_after_refill [of ?b1 now wait] st1 g(3,4) b rate w1 w2
    by simp_all
  have out3: "fst (rateLimit S cfg next ?c2 (now + wait) w r) = next w r"
    using rateLimit_granted(1) [where SplitHostPort = S, OF assms(1,2) adv2(1)] .
  have b3: "bucket cfg ?c3 ip = (bucket cfg ?c2 ip)\<lparr>lim_last := now + wait,
      lim_tokens := advance (bucket cfg ?c2 ip) (now + wait) - 1\<rparr>"
    using rateLimit_granted(2) [where SplitHostPort = S, OF assms(1,2) adv2(1), of "next" w] .
  have le: "advance (bucket cfg ?c2 ip) (now + wait) - 1 \<le> of_int (lim_burst (bucket cfg ?c2 ip))"
    using advance_le_burst [of "bucket cfg ?c2 ip" "now + wait"] by simp
  have "advance (bucket cfg ?c3 ip) (now + wait) = advance (bucket cfg ?c2 ip) (now + wait) - 1"
    unfolding b3 using le by (simp add: advance_same_instant)
  then have lt3: "advance (bucket cfg ?c3 ip) (now + wait) < 1" using adv2(2) by simp
  have out4: "fst (rateLimit S cfg next ?c3 (now + wait) w r)
      = Respond w rateLimitExceededResponse"
    using rateLimit_denied(1) [where SplitHostPort = S, OF assms(1,2) lt3] .
  show "fst (serve_requests S cfg next clients w r
             (replicate ?k now @ [now, now + wait, now + wait]))
        = replicate ?k (next w r)
            @ [Respond w rateLimitExceededResponse, next w r,
               Respond w rateLimitExceededResponse]"
    using g(1) out2 out3 out4
    by (simp add: serve_requests_append serve_requests_Cons del: serve_requests.simps(2))
next
  assume unseen: "clients ip = None"
  then show "lim_tokens (bucket cfg clients ip) = of_int (burst cfg)"
    by (simp add: bucket_def NewLimiter_def)
next
  assume unseen: "clients ip = None"
  then have b: "bucket cfg clients ip = NewLimiter (rps cfg) (burst cfg)"
    by (simp add: bucket_def)
  show "snd (rateLimit S cfg next clients now w r) ip =
      Some \<lparr>limiter = snd (Allow (NewLimiter (rps cfg) (burst cfg)) now), lastSeen = now\<rparr>"
    by (simp add: rateLimit_step [where SplitHostPort = S and r = r, OF assms(1,2)] b)
next
  assume "clients ip = None" and "0 \<le> rps cfg"
  then show "bucket_full cfg clients ip now" by (rule unseen_bucket_full)
qed

theorem rateLimit_burst_then_refill_witness:
  "fst (serve_requests sample_SplitHostPort default_limiter Served Map.empty []
          (sample_request None) [0, 0, 0, 0, 0, 500000000, 500000000])
     = [Served [] (sample_request None), Served [] (sample_request None),
        Served [] (sample_request None), Served [] (sample_request None),
        Respond [] rateLimitExceededResponse,
        Served [] (sample_request None),
        Respond [] rateLimitExceededResponse]
   \<and> fst (serve_requests sample_SplitHostPort three_per_second Served Map.empty []
          (sample_request None) [0, 0, 0, 333333334, 333333334])
     = [Served [] (sample_request None), Served [] (sample_request None),
        Respond [] rateLimitExceededResponse,
        Served [] (sample_request None),
        Respond [] rateLimitExceededResponse]
   \<and> snd (rateLimit sample_SplitHostPort default_limiter Served Map.empty 0 []
          (sample_request None)) ''10.0.0.1''
     = Some \<lparr>limiter = \<lparr>lim_limit = 2, lim_burst = 4, lim_tokens = 3, lim_last = 0\<rparr>,
             lastSeen = 0\<rparr>"
proof -
  have en: "enabled default_limiter" "enabled three_per_second"
    by (simp_all add: default_limiter_def three_per_second_def)
  have n: "replicate (nat (burst default_limiter)) (0::int) = [0, 0, 0, 0]"
    "replicate (nat (burst three_per_second)) (0::int) = [0, 0]"
    by (simp_all add: default_limiter_def three_per_second_def eval_nat_numeral)
  have n': "replicate (nat (burst default_limiter)) (Served [] (sample_request None))
      = [Served [] (sample_request None), Served [] (sample_request None),
         Served [] (sample_request None), Served [] (sample_request None)]"
    "replicate (nat (burst three_per_second)) (Served [] (sample_request None))
      = [Served [] (sample_request None), Served [] (sample_request None)]"
    by (simp_all add: default_limiter_def three_per_second_def eval_nat_numeral)
  have a: "Allow (NewLimiter 2 4) 0
      = (True, \<lparr>lim_limit = 2, lim_burst = 4, lim_tokens = 3, lim_last = 0\<rparr>)"
    by (simp add: Allow_def advance_def NewLimiter_def Let_def Second_def)
  note t1 = rateLimit_burst_then_refill [where S = sample_SplitHostPort
      and r = "sample_request None" and cfg = default_limiter and wait = 500000000
      and clients = Map.empty and now = 0 and w = "[]",
      OF en(1) sample_SplitHostPort_request, of Served]
  note t2 = rateLimit_burst_then_refill [where S = sample_SplitHostPort
      and r = "sample_request None" and cfg = three_per_second and wait = 333333334
      and clients = Map.empty and now = 0 and w = "[]",
      OF en(2) sample_SplitHostPort_request, of Served]
  have f1: "bucket_full default_limiter Map.empty ''10.0.0.1'' 0"
    using t1 by (simp add: default_limiter_def)
  have f2: "bucket_full three_per_second Map.empty ''10.0.0.1'' 0"
    using t2 by (simp add: three_per_second_def)
  have r1: "fst (serve_requests sample_SplitHostPort default_limiter Served Map.empty []
          (sample_request None) [0, 0, 0, 0, 0, 500000000, 500000000])
     = [Served [] (sample_request None), Served [] (sample_request None),
        Served [] (sample_request None), Served [] (sample_request None),
        Respond [] rateLimitExceededResponse,
        Served [] (sample_request None),
        Respond [] rateLimitExceededResponse]"
    using t1 f1 unfolding n n' by (simp add: default_limiter_def Second_def)
  have r2: "fst (serve_requests sample_SplitHostPort three_per_second Served Map.empty []
          (sample_request None) [0, 0, 0, 333333334, 333333334])
     = [Served [] (sample_request None), Served [] (sample_request None),
        Respond [] rateLimitExceededResponse,
        Served [] (sample_request None),
        Respond [] rateLimitExceededResponse]"
    using t2 f2 unfolding n n' by (simp add: three_per_second_def Second_def)
  have r3: "snd (rateLimit sample_SplitHostPort default_limiter Served Map.empty 0 []
          (sample_request None)) ''10.0.0.1''
     = Some \<lparr>limiter = \<lparr>lim_limit = 2, lim_burst = 4, lim_tokens = 3, lim_last = 0\<rparr>,
             lastSeen = 0\<rparr>"
    using t1 a by (simp add: default_limiter_def)
  from r1 r2 r3 show ?thesis by simp
qed

subsection \<open>C6: the sweep\<close>

lemma sweep_keeps_recent:
  assumes "clients ip = Some c" and "now - lastSeen c \<le> 3 * Minute"
  shows "sweep now clients ip = Some c"
  using assms by (simp add: sweep_def)

lemma sweep_absent: "clients ip = None \<Longrightarrow> sweep now clients ip = None"
  by (simp add: sweep_def)

text \<open>
  C6. For every client key whose entry was last seen more than three minutes (three times
  the one-minute interval of the sweep) before the sweep runs, the key is not in the map
  after the sweep; a request of that key after it is handled as the first of a key never
  seen: it draws from a new bucket of the configured rate and burst, whose fill level is
  the burst, and a new entry is stored for the key. With a rate that is not negative and a
  burst of at least one, that request is passed to the next handler.
\<close>

theorem sweep_evicts_idle_client:
  assumes "clients ip = Some c" and "now - lastSeen c > 3 * Minute"
    and "enabled cfg" and "S (RemoteAddr r) = Inr ip"
  shows "sweep now clients ip = None
     \<and> rateLimit S cfg next (sweep now clients) now' w r =
        (if fst (Allow (NewLimiter (rps cfg) (burst cfg)) now') then next w r
         else Respond w rateLimitExceededResponse,
         (sweep now clients)(ip \<mapsto>
            \<lparr>limiter = snd (Allow (NewLimiter (rps cfg) (burst cfg)) now'), lastSeen = now'\<rparr>))
     \<and> lim_tokens (NewLimiter (rps cfg) (burst cfg)) = of_int (burst cfg)
     \<and> (0 \<le> rps cfg \<and> 1 \<le> burst cfg \<longrightarrow>
          bucket_full cfg (sweep now clients) ip now'
        \<and> fst (rateLimit S cfg next (sweep now clients) now' w r) = next w r)"
proof -
  have gone: "sweep now clients ip = None"
    using assms(1,2) by (simp add: sweep_def)
  then have b: "bucket cfg (sweep now clients) ip = NewLimiter (rps cfg) (burst cfg)"
    by (simp add: bucket_def)
  have step: "rateLimit S cfg next (sweep now clients) now' w r =
        (if fst (Allow (NewLimiter (rps cfg) (burst cfg)) now') then next w r
         else Respond w rateLimitExceededResponse,
         (sweep now clients)(ip \<mapsto>
            \<lparr>limiter = snd (Allow (NewLimiter (rps cfg) (burst cfg)) now'), lastSeen = now'\<rparr>))"
    using rateLimit_step [where SplitHostPort = S and r = r, OF assms(3,4),
        of "next" "sweep now clients" now' w] b by simp
  have full: "bucket_full cfg (sweep now clients) ip now'" if "0 \<le> rps cfg"
    using gone that by (rule unseen_bucket_full)
  have served: "fst (rateLimit S cfg next (sweep now clients) now' w r) = next w r"
    if "0 \<le> rps cfg" and "1 \<le> burst cfg"
  proof -
    have "advance (bucket cfg (sweep now clients) ip) now' = of_int (burst cfg)"
      using full [OF that(1)] by (simp add: bucket_full_def)
    then have "1 \<le> advance (bucket cfg (sweep now clients) ip) now'"
      using that(2) by simp
    then show ?thesis
      using rateLimit_granted(1) [where SplitHostPort = S, OF assms(3,4)] by blast
  qed
  show ?thesis
    using gone step full served by (simp add: NewLimiter_def)
qed

theorem sweep_evicts_idle_client_witness:
  "idle_clients ''10.0.0.1''
     = Some \<lparr>limiter = \<lparr>lim_limit = 2, lim_burst = 4, lim_tokens = 0, lim_last = 0\<rparr>,
             lastSeen = 0\<rparr>
   \<and> 181 * Second - 0 > 3 * Minute
   \<and> sweep (181 * Second) idle_clients ''10.0.0.1'' = None
   \<and> rateLimit sample_SplitHostPort default_limiter Served (sweep (181 * Second) idle_clients)
        (181 * Second) [] (sample_request None)
     = (Served [] (sample_request None),
        [''10.0.0.1'' \<mapsto>
           \<lparr>limiter = \<lparr>lim_limit = 2, lim_burst = 4, lim_tokens = 3, lim_last = 181 * Second\<rparr>,
            lastSeen = 181 * Second\<rparr>])"
proof -
  have c: "idle_clients ''10.0.0.1''
     = Some \<lparr>limiter = \<lparr>lim_limit = 2, lim_burst = 4, lim_tokens = 0, lim_last = 0\<rparr>,
             lastSeen = 0\<rparr>"
    by (simp add: idle_clients_def)
  have idle: "181 * Second
      - lastSeen \<lparr>limiter = \<lparr>lim_limit = 2, lim_burst = 4, lim_tokens = 0, lim_last = 0\<rparr>,
             lastSeen = 0\<rparr> > 3 * Minute"
    by (simp add: Minute_def Second_def)
  have en: "enabled default_limiter" by (simp add: default_limiter_def)
  have e: "sweep (181 * Second) idle_clients = Map.empty"
    by (rule ext) (simp add: sweep_def idle_clients_def Minute_def Second_def)
  have a: "Allow (NewLimiter 2 4) (181 * Second)
      = (True, \<lparr>lim_limit = 2, lim_burst = 4, lim_tokens = 3, lim_last = 181 * Second\<rparr>)"
    by (simp add: Allow_def advance_def NewLimiter_def Let_def Second_def)
  show ?thesis
    using sweep_evicts_idle_client [where S = sample_SplitHostPort and r = "sample_request None"
        and cfg = default_limiter and now = "181 * Second" and now' = "181 * Second"
        and clients = idle_clients and w = "[]",
        OF c idle en sample_SplitHostPort_request, of Served] idle c
    by (simp add: e a default_limiter_def)
qed

end
